theory Spec2Isabelle
  imports Main "HOL-Library.Word"
begin

unbundle bit_operations_syntax

section \<open>Data model\<close>

text \<open>
  The notebook \<^verbatim>\<open>InReach_Message_Decoder.ipynb\<close> defines one function,
  \<^verbatim>\<open>decode_grib_file(encoded_data, output_path)\<close>. Python \<^verbatim>\<open>str\<close> values are modelled
  as \<^typ>\<open>string\<close>: one \<^typ>\<open>char\<close> stands for one code point below 256. Python
  \<^verbatim>\<open>bytes\<close> values are lists of 8-bit words.
\<close>

type_synonym byte = "8 word"

text \<open>
  The exceptions the body of \<^verbatim>\<open>decode_grib_file\<close> can raise, each with the text that
  \<^verbatim>\<open>str(e)\<close> gives: \<^verbatim>\<open>ValueError\<close> (the function's own \<^verbatim>\<open>raise\<close>, and the ASCII
  check of \<^verbatim>\<open>base64.b64decode\<close>), \<^verbatim>\<open>binascii.Error\<close>, \<^verbatim>\<open>zlib.error\<close>, \<^verbatim>\<open>OSError\<close>
  and \<^verbatim>\<open>IndexError\<close> (list indexing).
\<close>

datatype exn =
    ValueError string
  | BinasciiError string
  | ZlibError string
  | OSError string
  | IndexError string

fun str_exn :: "exn \<Rightarrow> string" where
  "str_exn (ValueError m) = m"
| "str_exn (BinasciiError m) = m"
| "str_exn (ZlibError m) = m"
| "str_exn (OSError m) = m"
| "str_exn (IndexError m) = m"

text \<open>
  The outcome of \<^verbatim>\<open>with open(output_path, 'wb') as f: f.write(data)\<close> in a given
  environment: the file is written in full; or \<^verbatim>\<open>open\<close> raises and nothing is created;
  or \<^verbatim>\<open>open\<close> succeeds (creating or truncating the file) and \<^verbatim>\<open>write\<close> raises, leaving
  the bytes that reached the disk.
\<close>

datatype io_outcome =
    IoOk
  | OpenFails string
  | WriteFails string "byte list"

text \<open>
  What the function takes from outside the notebook: \<^verbatim>\<open>zlib.decompress\<close> (\<open>Inl\<close> carries
  the message of \<^verbatim>\<open>zlib.error\<close>) and the behaviour of the file system on a write.
\<close>

record env =
  zlib_decompress :: "byte list \<Rightarrow> string + byte list"
  file_io :: "string \<Rightarrow> byte list \<Rightarrow> io_outcome"

text \<open>The state the function changes: the files on disk and the lines printed so far.\<close>

record world =
  files :: "string \<rightharpoonup> byte list"
  stdout :: "string list"

section \<open>Python string operations\<close>

text \<open>\<^verbatim>\<open>str.isspace\<close> on one character, for code points below 256.\<close>

definition py_isspace :: "char \<Rightarrow> bool" where
  "py_isspace c =
     (let n = (of_char c :: nat)
      in (9 \<le> n \<and> n \<le> 13) \<or> (28 \<le> n \<and> n \<le> 32) \<or> n = 133 \<or> n = 160)"

text \<open>\<^verbatim>\<open>s.strip()\<close>: drop whitespace at both ends.\<close>

definition py_strip :: "string \<Rightarrow> string" where
  "py_strip s = rev (dropWhile py_isspace (rev (dropWhile py_isspace s)))"

text \<open>\<^verbatim>\<open>s.split("\n")\<close>: the pieces between line feeds; never an empty list.\<close>

fun py_split_nl :: "string \<Rightarrow> string list" where
  "py_split_nl [] = [[]]"
| "py_split_nl (c # cs) =
     (if c = CHR 0x0A then [] # py_split_nl cs
      else (case py_split_nl cs of
              [] \<Rightarrow> [[c]]
            | l # ls \<Rightarrow> (c # l) # ls))"

text \<open>\<^verbatim>\<open>lines[i]\<close> for an index produced by \<^verbatim>\<open>range\<close> (never negative).\<close>

definition py_getitem :: "'a list \<Rightarrow> nat \<Rightarrow> exn + 'a" where
  "py_getitem xs i =
     (if i < length xs then Inr (xs ! i) else Inl (IndexError ''list index out of range''))"

text \<open>
  The comprehension \<^verbatim>\<open>[lines[i] for i in range(len(lines)) if i % 3 == 1]\<close>, run over
  the list of indices; an \<^verbatim>\<open>IndexError\<close> of \<^verbatim>\<open>lines[i]\<close> ends it.
\<close>

fun select_lines :: "string list \<Rightarrow> nat list \<Rightarrow> exn + string list" where
  "select_lines lines [] = Inr []"
| "select_lines lines (i # is) =
     (if i mod 3 = 1 then
        (case py_getitem lines i of
           Inl e \<Rightarrow> Inl e
         | Inr l \<Rightarrow> (case select_lines lines is of
                      Inl e \<Rightarrow> Inl e
                    | Inr ls \<Rightarrow> Inr (l # ls)))
      else select_lines lines is)"

text \<open>The first two statements of the \<^verbatim>\<open>try\<close> block: the lines, then the payload.\<close>

definition message_lines :: "string \<Rightarrow> string list" where
  "message_lines encoded_data = py_split_nl (py_strip encoded_data)"

definition extract_payload :: "string \<Rightarrow> exn + string" where
  "extract_payload encoded_data =
     (let lines = message_lines encoded_data
      in case select_lines lines [0..<length lines] of
           Inl e \<Rightarrow> Inl e
         | Inr sel \<Rightarrow> Inr (concat sel))"

text \<open>Decimal digits of a natural number, as \<^verbatim>\<open>str(n)\<close> and the f-string print it.\<close>

fun show_nat :: "nat \<Rightarrow> string" where
  "show_nat n =
     (if n < 10 then [''0123456789'' ! n]
      else show_nat (n div 10) @ [''0123456789'' ! (n mod 10)])"

declare show_nat.simps [simp del]

text \<open>
  The number that a string of decimal digits denotes, as a reader of the printed line
  takes it: \<^verbatim>\<open>int(s)\<close> on digits.
\<close>

definition decimal_value :: "string \<Rightarrow> nat" where
  "decimal_value s = foldl (\<lambda>a c. 10 * a + ((of_char c :: nat) - 48)) 0 s"

section \<open>The standard library's base64 decoder\<close>

text \<open>
  \<^verbatim>\<open>base64.b64decode(payload)\<close> is called with its defaults (\<^verbatim>\<open>validate=False\<close>): the
  string is encoded as ASCII, which raises \<^verbatim>\<open>ValueError\<close> on any other character, and the
  bytes go to \<^verbatim>\<open>binascii.a2b_base64\<close>. The model follows the C function of CPython 3.9,
  the version the notebook records.
\<close>

definition BASE64_PAD :: char where
  "BASE64_PAD = CHR ''=''"

text \<open>
  \<^verbatim>\<open>table_a2b_base64\<close>: the value of a character of the alphabet, 0 for the pad
  character, and 255 (the C table's \<^verbatim>\<open>-1\<close> as \<^verbatim>\<open>unsigned char\<close>) for everything else.
\<close>

definition table_a2b_base64 :: "char \<Rightarrow> nat" where
  "table_a2b_base64 c =
     (let n = (of_char c :: nat)
      in if 65 \<le> n \<and> n \<le> 90 then n - 65
         else if 97 \<le> n \<and> n \<le> 122 then n - 71
         else if 48 \<le> n \<and> n \<le> 57 then n + 4
         else if n = 43 then 62
         else if n = 47 then 63
         else if n = 61 then 0
         else 255)"

text \<open>
  \<^verbatim>\<open>binascii_find_valid(s, slen, num)\<close>: the \<open>(num+1)\<close>-th character of \<open>s\<close> that the
  table knows, \<open>None\<close> for the C function's \<^verbatim>\<open>-1\<close>.
\<close>

fun binascii_find_valid :: "string \<Rightarrow> nat \<Rightarrow> char option" where
  "binascii_find_valid [] num = None"
| "binascii_find_valid (c # s) num =
     (if (of_char c :: nat) \<le> 0x7f \<and> table_a2b_base64 c \<noteq> 255 then
        (if num = 0 then Some c else binascii_find_valid s (num - 1))
      else binascii_find_valid s num)"

text \<open>
  The \<^verbatim>\<open>for\<close> loop of \<^verbatim>\<open>binascii_a2b_base64_impl\<close> over the remaining input, with the
  local variables \<^verbatim>\<open>quad_pos\<close>, \<^verbatim>\<open>leftchar\<close>, \<^verbatim>\<open>leftbits\<close> and the bytes written so
  far; it returns \<^verbatim>\<open>leftbits\<close> and the bytes. \<^verbatim>\<open>leftchar\<close> is masked to fewer than
  8 bits after every byte, so the C \<^verbatim>\<open>unsigned int\<close> never wraps.
\<close>

fun a2b_loop :: "string \<Rightarrow> nat \<Rightarrow> nat \<Rightarrow> nat \<Rightarrow> byte list \<Rightarrow> nat \<times> byte list" where
  "a2b_loop [] quad_pos leftchar leftbits bin_data = (leftbits, bin_data)"
| "a2b_loop (c # cs) quad_pos leftchar leftbits bin_data =
     (if (of_char c :: nat) > 0x7f \<or> c = CHR 0x0D \<or> c = CHR 0x0A \<or> c = CHR '' '' then
        a2b_loop cs quad_pos leftchar leftbits bin_data
      else if c = BASE64_PAD then
        (if quad_pos < 2 \<or>
            (quad_pos = 2 \<and> binascii_find_valid (c # cs) 1 \<noteq> Some BASE64_PAD) then
           a2b_loop cs quad_pos leftchar leftbits bin_data
         else (0, bin_data))
      else if table_a2b_base64 c = 255 then
        a2b_loop cs quad_pos leftchar leftbits bin_data
      else
        (let quad_pos' = (quad_pos + 1) AND 3;
             leftchar' = push_bit 6 leftchar OR table_a2b_base64 c;
             leftbits' = leftbits + 6
         in if leftbits' \<ge> 8 then
              a2b_loop cs quad_pos'
                (leftchar' AND (push_bit (leftbits' - 8) 1 - 1)) (leftbits' - 8)
                (bin_data @ [word_of_nat (drop_bit (leftbits' - 8) leftchar' AND 0xff)])
            else a2b_loop cs quad_pos' leftchar' leftbits' bin_data))"

definition a2b_base64 :: "string \<Rightarrow> exn + byte list" where
  "a2b_base64 ascii_data =
     (case a2b_loop ascii_data 0 0 0 [] of
        (leftbits, bin_data) \<Rightarrow>
          if leftbits \<noteq> 0 then
            (if leftbits = 6 then
               Inl (BinasciiError
                 (''Invalid base64-encoded string: number of data characters ('' @
                  show_nat (length bin_data div 3 * 4 + 1) @
                  '') cannot be 1 more than a multiple of 4''))
             else Inl (BinasciiError ''Incorrect padding''))
          else Inr bin_data)"

definition b64decode :: "string \<Rightarrow> exn + byte list" where
  "b64decode s =
     (if \<exists>c \<in> set s. (of_char c :: nat) > 0x7f then
        Inl (ValueError ''string argument should contain only ASCII characters'')
      else a2b_base64 s)"

section \<open>The decoder\<close>

text \<open>
  The body of the \<^verbatim>\<open>try\<close> block, statement by statement. A raised exception is \<open>Inl\<close>;
  the world is returned as the statement that raised left it.
\<close>

definition decode_body :: "env \<Rightarrow> string \<Rightarrow> string \<Rightarrow> world \<Rightarrow> (exn + string) \<times> world" where
  "decode_body E encoded_data output_path w =
     (case extract_payload encoded_data of
        Inl e \<Rightarrow> (Inl e, w)
      | Inr payload \<Rightarrow>
          if payload = [] then
            (Inl (ValueError ''No payload data found. Check message format.''), w)
          else
            (case b64decode payload of
               Inl e \<Rightarrow> (Inl e, w)
             | Inr zipped_data \<Rightarrow>
                 (case zlib_decompress E zipped_data of
                    Inl m \<Rightarrow> (Inl (ZlibError m), w)
                  | Inr grib_binary \<Rightarrow>
                      (case file_io E output_path grib_binary of
                         OpenFails m \<Rightarrow> (Inl (OSError m), w)
                       | WriteFails m part \<Rightarrow>
                           (Inl (OSError m), w\<lparr>files := (files w)(output_path \<mapsto> part)\<rparr>)
                       | IoOk \<Rightarrow>
                           (Inr output_path,
                            w\<lparr>files := (files w)(output_path \<mapsto> grib_binary),
                              stdout := stdout w @
                                [''Decoded GRIB file saved to: '' @ output_path @ '' ('' @
                                 show_nat (length grib_binary) @ '' bytes)'']\<rparr>)))))"

text \<open>
  \<^verbatim>\<open>decode_grib_file\<close>: the body, and the handler \<^verbatim>\<open>except Exception as e\<close> that prints
  the error and raises it again.
\<close>

definition decode_grib_file :: "env \<Rightarrow> string \<Rightarrow> string \<Rightarrow> world \<Rightarrow> (exn + string) \<times> world" where
  "decode_grib_file E encoded_data output_path w =
     (case decode_body E encoded_data output_path w of
        (Inl e, w') \<Rightarrow>
          (Inl e, w'\<lparr>stdout := stdout w' @ [''Error decoding GRIB file: '' @ str_exn e]\<rparr>)
      | (Inr p, w') \<Rightarrow> (Inr p, w'))"

section \<open>The sender's side\<close>

text \<open>
  The notebook holds no encoder; these definitions state the format it expects, for the
  round trip. \<open>b64encode\<close> is the standard base64 encoding of a byte sequence.
\<close>

definition base64_alphabet :: string where
  "base64_alphabet = ''ABCDEFGHIJKLMNOPQRSTUVWXYZabcdefghijklmnopqrstuvwxyz0123456789+/''"

definition table_b2a_base64 :: "nat \<Rightarrow> char" where
  "table_b2a_base64 n = base64_alphabet ! n"

fun b64encode :: "byte list \<Rightarrow> string" where
  "b64encode [] = []"
| "b64encode [a] =
     [table_b2a_base64 (unat a div 4), table_b2a_base64 (unat a mod 4 * 16),
      CHR ''='', CHR ''='']"
| "b64encode [a, b] =
     [table_b2a_base64 (unat a div 4),
      table_b2a_base64 (unat a mod 4 * 16 + unat b div 16),
      table_b2a_base64 (unat b mod 16 * 4), CHR ''='']"
| "b64encode (a # b # c # rest) =
     [table_b2a_base64 (unat a div 4),
      table_b2a_base64 (unat a mod 4 * 16 + unat b div 16),
      table_b2a_base64 (unat b mod 16 * 4 + unat c div 64),
      table_b2a_base64 (unat c mod 64)] @ b64encode rest"

text \<open>\<^verbatim>\<open>"\n".join(lines)\<close>.\<close>

fun join_nl :: "string list \<Rightarrow> string" where
  "join_nl [] = []"
| "join_nl [l] = l"
| "join_nl (l # ls) = l @ CHR 0x0A # join_nl ls"

text \<open>
  A transmission of message parts, each a marker line, a payload line and a marker line,
  as in the notebook's \<^verbatim>\<open>TEXT_RECEIVED\<close>.
\<close>

fun part_lines :: "(string \<times> string \<times> string) list \<Rightarrow> string list" where
  "part_lines [] = []"
| "part_lines ((m1, p, m2) # parts) = m1 # p # m2 # part_lines parts"

definition transmission :: "(string \<times> string \<times> string) list \<Rightarrow> string" where
  "transmission parts = join_nl (part_lines parts)"

section \<open>An environment for the examples\<close>

text \<open>
  \<open>zlib_a\<close> is the stream \<^verbatim>\<open>zlib.compress(b"a")\<close>, whose base64 text is
  \<^verbatim>\<open>eJxLBAAAYgBi\<close>; \<open>zlib_hello\<close> is \<^verbatim>\<open>zlib.compress(b"hello world!")\<close>, whose
  base64 text is \<^verbatim>\<open>eJzLSM3JyVcozy/KSVEEAB6JBH4=\<close>. \<open>sample_env\<close> gives the answers of
  \<^verbatim>\<open>zlib.decompress\<close> that the examples need: the original bytes on these two
  streams, and the bad-header error on the bytes \<^verbatim>\<open>b"AAA"\<close> (base64 text \<^verbatim>\<open>QUFB\<close>);
  no example looks at another stream. Every write succeeds. \<open>new_world\<close> has no
  files and no output; \<open>old_world\<close> already holds a file \<^verbatim>\<open>out.grb\<close>.
\<close>

definition zlib_a :: "byte list" where
  "zlib_a = [120, 156, 75, 4, 0, 0, 98, 0, 98]"

definition zlib_hello :: "byte list" where
  "zlib_hello =
     [120, 156, 203, 72, 205, 201, 201, 87, 40, 207, 47, 202, 73, 81, 4, 0, 30, 137, 4, 126]"

definition hello_world :: "byte list" where
  "hello_world = [104, 101, 108, 108, 111, 32, 119, 111, 114, 108, 100, 33]"

definition sample_env :: env where
  "sample_env =
     \<lparr>zlib_decompress =
        (\<lambda>z. if z = zlib_a then Inr [97]
             else if z = zlib_hello then Inr hello_world
             else Inl ''Error -3 while decompressing data: incorrect header check''),
      file_io = (\<lambda>path data. IoOk)\<rparr>"

definition new_world :: world where
  "new_world = \<lparr>files = Map.empty, stdout = []\<rparr>"

definition old_world :: world where
  "old_world = \<lparr>files = [''out.grb'' \<mapsto> [1, 2, 3]], stdout = []\<rparr>"

section \<open>Payload selection\<close>

lemma select_lines_in_range:
  "\<forall>i \<in> set is. i < length lines \<Longrightarrow>
   select_lines lines is = Inr (map ((!) lines) (filter (\<lambda>i. i mod 3 = 1) is))"
  by (induction "is") (simp_all add: py_getitem_def)

lemma extract_payload_eq:
  "extract_payload t =
     Inr (concat (map ((!) (message_lines t))
            (filter (\<lambda>i. i mod 3 = 1) [0..<length (message_lines t)])))"
  by (simp add: extract_payload_def Let_def select_lines_in_range)

lemma payload_positions:
  "filter (\<lambda>i. i mod 3 = 1) [0..<n] = map (\<lambda>k. 3 * k + 1) [0..<(n + 1) div 3]"
proof (induction n)
  case 0
  show ?case by simp
next
  case (Suc n)
  show ?case
  proof (cases "n mod 3 = 1")
    case True
    then have "(Suc n + 1) div 3 = Suc ((n + 1) div 3)" "n = 3 * ((n + 1) div 3) + 1"
      by presburger+
    with Suc True show ?thesis by simp
  next
    case False
    then have "(Suc n + 1) div 3 = (n + 1) div 3" by presburger
    with Suc False show ?thesis by simp
  qed
qed

lemma extract_payload_nth:
  "extract_payload t =
     Inr (concat (map (\<lambda>k. message_lines t ! (3 * k + 1))
            [0..<(length (message_lines t) + 1) div 3]))"
  unfolding extract_payload_eq payload_positions by (simp add: comp_def)

lemma py_split_nl_nonempty: "py_split_nl s \<noteq> []"
  by (induction s) (auto split: list.splits)

lemma message_lines_nonempty: "message_lines t \<noteq> []"
  by (simp add: message_lines_def py_split_nl_nonempty)

lemma extract_payload_empty_iff:
  "extract_payload t = Inr [] \<longleftrightarrow>
   (\<forall>i < length (message_lines t). i mod 3 = 1 \<longrightarrow> message_lines t ! i = [])"
  by (auto simp: extract_payload_eq)

lemma decode_empty:
  assumes "extract_payload t = Inr []"
  shows "decode_grib_file E t out w =
     (Inl (ValueError ''No payload data found. Check message format.''),
      w\<lparr>stdout := stdout w @
         [''Error decoding GRIB file: No payload data found. Check message format.'']\<rparr>)"
  using assms by (simp add: decode_grib_file_def decode_body_def)

lemma decode_b64_fail:
  assumes "extract_payload t = Inr p" "p \<noteq> []" "b64decode p = Inl e"
  shows "decode_grib_file E t out w =
     (Inl e, w\<lparr>stdout := stdout w @ [''Error decoding GRIB file: '' @ str_exn e]\<rparr>)"
  using assms by (simp add: decode_grib_file_def decode_body_def)

lemma decode_zlib_fail:
  assumes "extract_payload t = Inr p" "p \<noteq> []" "b64decode p = Inr z"
    "zlib_decompress E z = Inl m"
  shows "decode_grib_file E t out w =
     (Inl (ZlibError m), w\<lparr>stdout := stdout w @ [''Error decoding GRIB file: '' @ m]\<rparr>)"
  using assms by (simp add: decode_grib_file_def decode_body_def)

lemma decode_ok:
  assumes "extract_payload t = Inr p" "p \<noteq> []" "b64decode p = Inr z"
    "zlib_decompress E z = Inr g" "file_io E out g = IoOk"
  shows "decode_grib_file E t out w =
     (Inr out, w\<lparr>files := (files w)(out \<mapsto> g),
        stdout := stdout w @
          [''Decoded GRIB file saved to: '' @ out @ '' ('' @
           show_nat (length g) @ '' bytes)'']\<rparr>)"
  using assms by (simp add: decode_grib_file_def decode_body_def)

lemma decode_success_cases:
  assumes "fst (decode_grib_file E t out w) = Inr r"
  shows "\<exists>p z g. extract_payload t = Inr p \<and> p \<noteq> [] \<and> b64decode p = Inr z \<and>
           zlib_decompress E z = Inr g \<and> file_io E out g = IoOk"
  using assms
  by (auto simp: decode_grib_file_def decode_body_def
           split: sum.splits if_splits io_outcome.splits prod.splits)

section \<open>Base64: decoding an encoded byte sequence\<close>

lemma alphabet_props:
  "\<forall>c \<in> set ''ABCDEFGHIJKLMNOPQRSTUVWXYZabcdefghijklmnopqrstuvwxyz0123456789+/''.
     (of_char c :: nat) \<le> 0x7f \<and> c \<noteq> CHR 0x0D \<and> c \<noteq> CHR 0x0A \<and> c \<noteq> CHR '' '' \<and>
     c \<noteq> BASE64_PAD \<and> \<not> py_isspace c"
  by (simp add: BASE64_PAD_def py_isspace_def)

lemma a2b_alphabet:
  "map table_a2b_base64 ''ABCDEFGHIJKLMNOPQRSTUVWXYZabcdefghijklmnopqrstuvwxyz0123456789+/''
   = [0..<64]"
  by (simp add: table_a2b_base64_def upt_rec)

lemma table_a2b_b2a:
  assumes "v < 64"
  shows "table_a2b_base64 (table_b2a_base64 v) = v"
proof -
  let ?al = "''ABCDEFGHIJKLMNOPQRSTUVWXYZabcdefghijklmnopqrstuvwxyz0123456789+/''"
  have len: "length ?al = 64" by simp
  have A: "map table_a2b_base64 ?al ! v = table_a2b_base64 (?al ! v)"
    by (rule nth_map) (simp only: len assms)
  have B: "map table_a2b_base64 ?al = [0..<64]"
    by (rule a2b_alphabet)
  have C: "[0..<64] ! v = v"
    using assms by simp
  show ?thesis
    unfolding table_b2a_base64_def base64_alphabet_def by (simp only: A [symmetric] B C)
qed

lemma table_b2a_props:
  assumes "v < 64"
  shows "(of_char (table_b2a_base64 v) :: nat) \<le> 0x7f \<and>
    table_b2a_base64 v \<noteq> CHR 0x0D \<and>
    table_b2a_base64 v \<noteq> CHR 0x0A \<and>
    table_b2a_base64 v \<noteq> CHR '' '' \<and>
    table_b2a_base64 v \<noteq> BASE64_PAD \<and>
    \<not> py_isspace (table_b2a_base64 v)"
proof -
  let ?al = "''ABCDEFGHIJKLMNOPQRSTUVWXYZabcdefghijklmnopqrstuvwxyz0123456789+/''"
  have len: "length ?al = 64" by simp
  have mem: "table_b2a_base64 v \<in> set ?al"
    unfolding table_b2a_base64_def base64_alphabet_def by (rule nth_mem) (simp only: len assms)
  show ?thesis
    by (rule bspec [OF alphabet_props mem])
qed

lemma and_low: "(x::nat) AND 255 = x mod 256" "(x::nat) AND 15 = x mod 16" "(x::nat) AND 3 = x mod 4"
  using take_bit_eq_mask[of 8 x] take_bit_eq_mask[of 4 x] take_bit_eq_mask[of 2 x]
  by (simp_all add: take_bit_eq_mod mask_eq_exp_minus_1)

lemma sextets:
  fixes a b c :: nat
  assumes "a < 256" "b < 256" "c < 256"
  shows "a div 4 < 64" "a mod 4 * 16 + b div 16 < 64" "b mod 16 * 4 + c div 64 < 64" "c mod 64 < 64"
    "a mod 4 * 16 < 64" "b mod 16 * 4 < 64"
proof -
  have 1: "a mod 4 < 4" "b mod 16 < 16" by simp_all
  have 2: "a div 4 < 64" "b div 16 < 16" "c div 64 < 4" using assms by simp_all
  show "a div 4 < 64" by (rule 2)
  show "a mod 4 * 16 + b div 16 < 64" using 1 2 by linarith
  show "b mod 16 * 4 + c div 64 < 64" using 1 2 by linarith
  show "c mod 64 < 64" by simp
  show "a mod 4 * 16 < 64" using 1 by linarith
  show "b mod 16 * 4 < 64" using 1 by linarith
qed


lemma or_sextet:
  assumes "v < 64"
  shows "push_bit 6 x OR v = x * 64 + (v::nat)"
proof -
  have v: "take_bit 6 v = v" using assms by (simp add: take_bit_nat_eq_self)
  have "push_bit 6 x AND take_bit 6 v = 0"
    by (rule bit_eqI) (simp add: bit_simps)
  then have "push_bit 6 x AND v = 0" by (simp only: v)
  then have "push_bit 6 x + v = push_bit 6 x OR v" by (rule disjunctive_add_eq_or)
  then show ?thesis by (simp add: push_bit_eq_mult)
qed

lemma a2b_loop_data:
  assumes "v < 64"
  shows "a2b_loop (table_b2a_base64 v # cs) qp lc lb out =
     (if lb + 6 \<ge> 8 then
        a2b_loop cs ((qp + 1) mod 4) ((lc * 64 + v) mod 2 ^ (lb + 6 - 8))
          (lb + 6 - 8) (out @ [word_of_nat ((lc * 64 + v) div 2 ^ (lb + 6 - 8) mod 256)])
      else a2b_loop cs ((qp + 1) mod 4) (lc * 64 + v) (lb + 6) out)"
proof -
  have m: "(x::nat) AND (2 ^ k - Suc 0) = x mod 2 ^ k" for x k
    using take_bit_eq_mask[of k x]
    by (simp add: take_bit_eq_mod mask_eq_exp_minus_1)
  show ?thesis
    using table_b2a_props[OF assms] table_a2b_b2a[OF assms] assms
    by (simp add: Let_def or_sextet m and_low drop_bit_eq_div)
qed


lemma a2b_loop_group3:
  fixes a b c :: byte
  shows "a2b_loop
     (table_b2a_base64 (unat a div 4) #
      table_b2a_base64 (unat a mod 4 * 16 + unat b div 16) #
      table_b2a_base64 (unat b mod 16 * 4 + unat c div 64) #
      table_b2a_base64 (unat c mod 64) # rest) 0 0 0 out =
     a2b_loop rest 0 0 0 (out @ [a, b, c])"
proof -
  let ?a = "unat a" and ?b = "unat b" and ?c = "unat c"
  have lt: "?a < 256" "?b < 256" "?c < 256"
    using unsigned_less[of a] unsigned_less[of b] unsigned_less[of c] by simp_all
  note sx = sextets[OF lt]
  have d: "?b div 16 < 16" "?c div 64 < 4" using lt by simp_all
  have e1: "?a div 4 * 64 + (?a mod 4 * 16 + ?b div 16) = ?a * 16 + ?b div 16"
    using mult_div_mod_eq[of 4 ?a] by linarith
  have e2: "?b div 16 * 64 + (?b mod 16 * 4 + ?c div 64) = ?b * 4 + ?c div 64"
    using mult_div_mod_eq[of 16 ?b] by linarith
  have e3: "?c div 64 * 64 + ?c mod 64 = ?c"
    by simp
  have s1: "a2b_loop (table_b2a_base64 (?a div 4) # xs) qp 0 0 out =
            a2b_loop xs ((qp + 1) mod 4) (?a div 4) 6 out" for xs qp
    by (subst a2b_loop_data[OF sx(1)]) simp
  have s2: "a2b_loop (table_b2a_base64 (?a mod 4 * 16 + ?b div 16) # xs) qp (?a div 4) 6 out =
            a2b_loop xs ((qp + 1) mod 4) (?b div 16) 4 (out @ [a])" for xs qp
    by (subst a2b_loop_data[OF sx(2)]) (simp add: e1 d lt)
  have s3: "a2b_loop (table_b2a_base64 (?b mod 16 * 4 + ?c div 64) # xs) qp (?b div 16) 4 (out @ [a]) =
            a2b_loop xs ((qp + 1) mod 4) (?c div 64) 2 (out @ [a, b])" for xs qp
    by (subst a2b_loop_data[OF sx(3)]) (simp add: e2 d lt)
  have s4: "a2b_loop (table_b2a_base64 (?c mod 64) # xs) qp (?c div 64) 2 (out @ [a, b]) =
            a2b_loop xs ((qp + 1) mod 4) 0 0 (out @ [a, b, c])" for xs qp
    by (subst a2b_loop_data[OF sx(4)]) (simp add: e3 d lt)
  show ?thesis
    by (simp only: s1 s2 s3 s4) simp
qed

lemma a2b_loop_tail1:
  fixes a :: byte
  shows "a2b_loop
     [table_b2a_base64 (unat a div 4), table_b2a_base64 (unat a mod 4 * 16),
      CHR ''='', CHR ''=''] 0 0 0 out = (0, out @ [a])"
proof -
  let ?a = "unat a"
  have lt: "?a < 256" using unsigned_less[of a] by simp
  note sx = sextets[OF lt lt lt]
  have e1: "?a div 4 * 64 + ?a mod 4 * 16 = ?a * 16"
    using mult_div_mod_eq[of 4 ?a] by linarith
  have s1: "a2b_loop (table_b2a_base64 (?a div 4) # xs) qp 0 0 out =
            a2b_loop xs ((qp + 1) mod 4) (?a div 4) 6 out" for xs qp
    by (subst a2b_loop_data[OF sx(1)]) simp
  have s2: "a2b_loop (table_b2a_base64 (?a mod 4 * 16) # xs) qp (?a div 4) 6 out =
            a2b_loop xs ((qp + 1) mod 4) 0 4 (out @ [a])" for xs qp
    by (subst a2b_loop_data[OF sx(5)]) (simp add: e1 lt)
  show ?thesis
    by (simp only: s1 s2) (simp add: BASE64_PAD_def table_a2b_base64_def)
qed

lemma a2b_loop_tail2:
  fixes a b :: byte
  shows "a2b_loop
     [table_b2a_base64 (unat a div 4),
      table_b2a_base64 (unat a mod 4 * 16 + unat b div 16),
      table_b2a_base64 (unat b mod 16 * 4), CHR ''=''] 0 0 0 out = (0, out @ [a, b])"
proof -
  let ?a = "unat a" and ?b = "unat b"
  have lt: "?a < 256" "?b < 256"
    using unsigned_less[of a] unsigned_less[of b] by simp_all
  note sx = sextets[OF lt lt(2)]
  have d: "?b div 16 < 16" using lt by simp
  have e1: "?a div 4 * 64 + (?a mod 4 * 16 + ?b div 16) = ?a * 16 + ?b div 16"
    using mult_div_mod_eq[of 4 ?a] by linarith
  have e2: "?b div 16 * 64 + ?b mod 16 * 4 = ?b * 4"
    using mult_div_mod_eq[of 16 ?b] by linarith
  have s1: "a2b_loop (table_b2a_base64 (?a div 4) # xs) qp 0 0 out =
            a2b_loop xs ((qp + 1) mod 4) (?a div 4) 6 out" for xs qp
    by (subst a2b_loop_data[OF sx(1)]) simp
  have s2: "a2b_loop (table_b2a_base64 (?a mod 4 * 16 + ?b div 16) # xs) qp (?a div 4) 6 out =
            a2b_loop xs ((qp + 1) mod 4) (?b div 16) 4 (out @ [a])" for xs qp
    by (subst a2b_loop_data[OF sx(2)]) (simp add: e1 d lt)
  have s3: "a2b_loop (table_b2a_base64 (?b mod 16 * 4) # xs) qp (?b div 16) 4 (out @ [a]) =
            a2b_loop xs ((qp + 1) mod 4) 0 2 (out @ [a, b])" for xs qp
    by (subst a2b_loop_data[OF sx(6)]) (simp add: e2 d lt)
  show ?thesis
    by (simp only: s1 s2 s3) (simp add: BASE64_PAD_def table_a2b_base64_def)
qed

lemma a2b_loop_b64encode: "a2b_loop (b64encode z) 0 0 0 out = (0, out @ z)"
proof (induction z arbitrary: out rule: b64encode.induct)
  case 1
  show ?case by simp
next
  case (2 a)
  show ?case unfolding b64encode.simps by (rule a2b_loop_tail1)
next
  case (3 a b)
  show ?case unfolding b64encode.simps by (rule a2b_loop_tail2)
next
  case (4 a b c rest)
  show ?case
    unfolding b64encode.simps append_Cons append_Nil
    by (simp only: a2b_loop_group3 "4.IH") simp
qed

lemma b64encode_chars:
  "c \<in> set (b64encode z) \<Longrightarrow>
   (of_char c :: nat) \<le> 0x7f \<and> c \<noteq> CHR 0x0A \<and> \<not> py_isspace c"
proof (induction z rule: b64encode.induct)
  case 1
  then show ?case by simp
next
  case (2 a)
  have lt: "unat a < 256" using unsigned_less[of a] by simp
  note sx = sextets[OF lt lt lt]
  from 2 table_b2a_props[OF sx(1)] table_b2a_props[OF sx(5)]
  show ?case by (auto simp: py_isspace_def)
next
  case (3 a b)
  have lt: "unat a < 256" "unat b < 256"
    using unsigned_less[of a] unsigned_less[of b] by simp_all
  note sx = sextets[OF lt lt(2)]
  from 3 table_b2a_props[OF sx(1)] table_b2a_props[OF sx(2)] table_b2a_props[OF sx(6)]
  show ?case by (auto simp: py_isspace_def)
next
  case (4 a b c rest)
  have lt: "unat a < 256" "unat b < 256" "unat c < 256"
    using unsigned_less[of a] unsigned_less[of b] unsigned_less[of c] by simp_all
  note sx = sextets[OF lt]
  from 4 table_b2a_props[OF sx(1)] table_b2a_props[OF sx(2)]
    table_b2a_props[OF sx(3)] table_b2a_props[OF sx(4)]
  show ?case by auto
qed

lemma b64decode_b64encode: "b64decode (b64encode z) = Inr z"
proof -
  have "\<not> (\<exists>c \<in> set (b64encode z). (of_char c :: nat) > 0x7f)"
    using b64encode_chars[of _ z] by (auto simp: not_less)
  then show ?thesis
    using a2b_loop_b64encode[of z "[]"]
    by (simp add: b64decode_def a2b_base64_def)
qed

section \<open>Trimming, splitting and framing\<close>

lemma py_split_nl_line:
  "CHR 0x0A \<notin> set l \<Longrightarrow> py_split_nl l = [l]"
  by (induction l) auto

lemma py_split_nl_append:
  "CHR 0x0A \<notin> set l \<Longrightarrow> py_split_nl (l @ CHR 0x0A # rest) = l # py_split_nl rest"
  by (induction l) auto

lemma py_split_nl_join:
  "ls \<noteq> [] \<Longrightarrow> \<forall>l \<in> set ls. CHR 0x0A \<notin> set l \<Longrightarrow> py_split_nl (join_nl ls) = ls"
proof (induction ls rule: join_nl.induct)
  case 1
  then show ?case by simp
next
  case (2 l)
  then show ?case by (simp add: py_split_nl_line)
next
  case (3 l v va)
  then show ?case by (simp add: py_split_nl_append)
qed

lemma join_nl_py_split_nl: "join_nl (py_split_nl s) = s"
proof (induction s)
  case Nil
  show ?case by simp
next
  case (Cons c cs)
  obtain l ls where sp: "py_split_nl cs = l # ls"
    using py_split_nl_nonempty[of cs] by (cases "py_split_nl cs") auto
  with Cons show ?case
    by (cases ls) (auto)
qed

lemma py_split_nl_no_newline: "l \<in> set (py_split_nl s) \<Longrightarrow> CHR 0x0A \<notin> set l"
proof (induction s arbitrary: l)
  case Nil
  then show ?case by simp
next
  case (Cons c cs)
  obtain l' ls where sp: "py_split_nl cs = l' # ls"
    using py_split_nl_nonempty[of cs] by (cases "py_split_nl cs") auto
  with Cons show ?case
    by (auto split: if_splits)
qed

lemma py_strip_framed:
  assumes "s \<noteq> []" "\<not> py_isspace (hd s)" "\<not> py_isspace (last s)"
    and "\<forall>c \<in> set pre. py_isspace c" "\<forall>c \<in> set post. py_isspace c"
  shows "py_strip (pre @ s @ post) = s"
proof -
  have 1: "dropWhile py_isspace (pre @ s @ post) = s @ post"
    using assms by (cases s) (simp_all add: dropWhile_append2)
  have "dropWhile py_isspace (rev post @ rev s) = dropWhile py_isspace (rev s)"
    by (rule dropWhile_append2) (use assms in auto)
  also have "\<dots> = rev s"
    using assms by (cases s rule: rev_cases) simp_all
  finally have 2: "dropWhile py_isspace (rev post @ rev s) = rev s" .
  show ?thesis
    by (simp add: py_strip_def 1 2)
qed

lemma py_strip_decomp:
  "\<exists>pre post. t = pre @ py_strip t @ post \<and>
     (\<forall>c \<in> set pre. py_isspace c) \<and> (\<forall>c \<in> set post. py_isspace c) \<and>
     (py_strip t \<noteq> [] \<longrightarrow> \<not> py_isspace (hd (py_strip t)) \<and> \<not> py_isspace (last (py_strip t)))"
proof -
  let ?P = py_isspace
  let ?u = "dropWhile ?P t"
  let ?pre = "takeWhile ?P t"
  let ?post = "rev (takeWhile ?P (rev ?u))"
  have s: "py_strip t = rev (dropWhile ?P (rev ?u))" by (simp add: py_strip_def)
  have "rev ?u = takeWhile ?P (rev ?u) @ dropWhile ?P (rev ?u)" by simp
  then have "rev (rev ?u) = rev (takeWhile ?P (rev ?u) @ dropWhile ?P (rev ?u))" by (rule arg_cong)
  then have u: "?u = py_strip t @ ?post" by (simp only: rev_rev_ident rev_append s)
  have t: "t = ?pre @ py_strip t @ ?post"
    using takeWhile_dropWhile_id[of ?P t] u by metis
  have pre: "\<forall>c \<in> set ?pre. ?P c" by (auto dest: set_takeWhileD)
  have post: "\<forall>c \<in> set ?post. ?P c" by (auto dest: set_takeWhileD)
  have ends: "\<not> ?P (hd (py_strip t)) \<and> \<not> ?P (last (py_strip t))" if ne: "py_strip t \<noteq> []"
  proof
    have "?u \<noteq> []" by (metis ne u append_is_Nil_conv)
    then have "\<not> ?P (hd ?u)" by (rule hd_dropWhile)
    moreover have "hd ?u = hd (py_strip t)" using ne u by (metis hd_append2)
    ultimately show "\<not> ?P (hd (py_strip t))" by simp
    from ne s have d: "dropWhile ?P (rev ?u) \<noteq> []" by auto
    then have "\<not> ?P (hd (dropWhile ?P (rev ?u)))" by (rule hd_dropWhile)
    with d show "\<not> ?P (last (py_strip t))" by (simp add: s last_rev)
  qed
  from t pre post ends show ?thesis by blast
qed

lemma length_part_lines: "length (part_lines parts) = 3 * length parts"
  by (induction parts rule: part_lines.induct) simp_all

lemma part_lines_payload:
  "k < length parts \<Longrightarrow> part_lines parts ! (3 * k + 1) = fst (snd (parts ! k))"
proof (induction parts arbitrary: k rule: part_lines.induct)
  case 1
  then show ?case by simp
next
  case (2 m1 p m2 parts)
  show ?case
  proof (cases k)
    case 0
    then show ?thesis by simp
  next
    case (Suc j)
    with 2 have "part_lines parts ! (3 * j + 1) = fst (snd (parts ! j))" by simp
    moreover have "3 * k + 1 = Suc (Suc (Suc (3 * j + 1)))" using Suc by simp
    ultimately show ?thesis using Suc by (simp del: mult_Suc_right)
  qed
qed

lemma payload_of_part_lines:
  "concat (map (\<lambda>k. part_lines parts ! (3 * k + 1)) [0..<(length (part_lines parts) + 1) div 3]) =
   concat (map (\<lambda>(m1, p, m2). p) parts)"
proof -
  have n: "(length (part_lines parts) + 1) div 3 = length parts"
    by (simp add: length_part_lines)
  have "map (\<lambda>k. part_lines parts ! (3 * k + 1)) [0..<length parts] = map (\<lambda>(m1, p, m2). p) parts"
    using part_lines_payload[of _ parts]
    by (intro nth_equalityI) (auto split: prod.splits)
  then show ?thesis by (simp only: n)
qed

section \<open>The examples evaluated\<close>

lemma sample_payload:
  "extract_payload ''\<newline>0\<newline>eJxLBAAAYgBi\<newline>0\<newline>'' = Inr ''eJxLBAAAYgBi''"
  by (simp add: extract_payload_def message_lines_def py_strip_def py_isspace_def
        py_getitem_def Let_def)

lemma sample_b64decode: "b64decode ''eJxLBAAAYgBi'' = Inr zlib_a"
  by (simp add: b64decode_def a2b_base64_def BASE64_PAD_def table_a2b_base64_def Let_def
        zlib_a_def)

lemma sample_decode:
  "decode_grib_file sample_env ''\<newline>0\<newline>eJxLBAAAYgBi\<newline>0\<newline>'' out w =
     (Inr out, w\<lparr>files := (files w)(out \<mapsto> [97]),
        stdout := stdout w @ [''Decoded GRIB file saved to: '' @ out @ '' (1 bytes)'']\<rparr>)"
proof -
  have z: "zlib_decompress sample_env zlib_a = Inr [97]" by (simp add: sample_env_def)
  have io: "file_io sample_env out [97] = IoOk" by (simp add: sample_env_def)
  have n: "show_nat (length [97::byte]) = ''1''" by (simp add: show_nat.simps)
  have p: "''eJxLBAAAYgBi'' \<noteq> []" by simp
  show ?thesis
    unfolding decode_ok[OF sample_payload p sample_b64decode z io] n by simp
qed

section \<open>Outcomes of the decoder\<close>

lemma decode_same_payload:
  assumes "extract_payload t1 = extract_payload t2"
  shows "decode_grib_file E t1 out w = decode_grib_file E t2 out w"
  using assms by (simp add: decode_grib_file_def decode_body_def)

section \<open>Framed transmissions\<close>

lemma join_nl_hd:
  "ls \<noteq> [] \<Longrightarrow> hd ls \<noteq> [] \<Longrightarrow> join_nl ls \<noteq> [] \<and> hd (join_nl ls) = hd (hd ls)"
  by (induction ls rule: join_nl.induct) auto

lemma join_nl_last:
  "ls \<noteq> [] \<Longrightarrow> last ls \<noteq> [] \<Longrightarrow>
   join_nl ls \<noteq> [] \<and> last (join_nl ls) = last (last ls)"
  by (induction ls rule: join_nl.induct) auto

lemma part_lines_hd:
  "parts \<noteq> [] \<Longrightarrow> part_lines parts \<noteq> [] \<and> hd (part_lines parts) = fst (hd parts)"
  by (cases parts rule: part_lines.cases) auto

lemma part_lines_last:
  "parts \<noteq> [] \<Longrightarrow> last (part_lines parts) = snd (snd (last parts))"
  by (induction parts rule: part_lines.induct) (auto simp: part_lines_hd)

lemma part_lines_set:
  "l \<in> set (part_lines parts) \<Longrightarrow>
   \<exists>m1 p m2. (m1, p, m2) \<in> set parts \<and> (l = m1 \<or> l = p \<or> l = m2)"
  by (induction parts rule: part_lines.induct) auto

lemma isspace_newline: "py_isspace (CHR 0x0A)"
  by (simp add: py_isspace_def)

lemma b64encode_nonempty: "z \<noteq> [] \<Longrightarrow> b64encode z \<noteq> []"
  by (cases z rule: b64encode.cases) simp_all

lemma message_lines_transmission:
  assumes parts: "parts \<noteq> []"
    and markers: "\<forall>(m1, p, m2) \<in> set parts.
        m1 \<noteq> [] \<and> m2 \<noteq> [] \<and> (\<forall>c \<in> set m1 \<union> set m2. \<not> py_isspace c)"
    and lines: "\<forall>(m1, p, m2) \<in> set parts. CHR 0x0A \<notin> set p"
    and pre: "\<forall>c \<in> set pre. py_isspace c"
    and post: "\<forall>c \<in> set post. py_isspace c"
  shows "message_lines (pre @ transmission parts @ post) = part_lines parts"
proof -
  let ?ls = "part_lines parts"
  have ne: "?ls \<noteq> []" and hd: "hd ?ls = fst (hd parts)"
    using part_lines_hd[OF parts] by simp_all
  have la: "last ?ls = snd (snd (last parts))" by (rule part_lines_last[OF parts])
  have hdm: "hd parts \<in> set parts" and lam: "last parts \<in> set parts"
    using parts by simp_all
  from markers hdm have h1: "fst (hd parts) \<noteq> []" "\<not> py_isspace (hd (fst (hd parts)))"
    by (cases "hd parts"; fastforce)+
  from markers lam have l1: "snd (snd (last parts)) \<noteq> []"
    "\<not> py_isspace (last (snd (snd (last parts))))"
    by (cases "last parts"; fastforce)+
  have nl: "\<forall>l \<in> set ?ls. CHR 0x0A \<notin> set l"
  proof
    fix l assume "l \<in> set ?ls"
    from part_lines_set[OF this] obtain m1 p m2 where
      m: "(m1, p, m2) \<in> set parts" and l: "l = m1 \<or> l = p \<or> l = m2" by blast
    from markers m have "\<forall>c \<in> set m1 \<union> set m2. \<not> py_isspace c" by fastforce
    then have "CHR 0x0A \<notin> set m1" "CHR 0x0A \<notin> set m2"
      using isspace_newline by blast+
    moreover from lines m have "CHR 0x0A \<notin> set p" by fastforce
    ultimately show "CHR 0x0A \<notin> set l" using l by blast
  qed
  have t1: "transmission parts \<noteq> []" "hd (transmission parts) = hd (fst (hd parts))"
    using join_nl_hd[OF ne] h1 hd by (simp_all add: transmission_def)
  have t2: "last (transmission parts) = last (snd (snd (last parts)))"
    using join_nl_last[OF ne] l1 la by (simp add: transmission_def)
  have "py_strip (pre @ transmission parts @ post) = transmission parts"
    by (rule py_strip_framed) (simp_all add: t1 t2 h1 l1 pre post)
  then show ?thesis
    by (simp add: message_lines_def transmission_def py_split_nl_join[OF ne nl])
qed

section \<open>Errors and discarded characters of the base64 decoder\<close>

lemma b64decode_error:
  assumes "b64decode p = Inl e"
  shows "e = ValueError ''string argument should contain only ASCII characters'' \<or>
   (\<exists>m. e = BinasciiError m)"
proof (cases "\<exists>c \<in> set p. (of_char c :: nat) > 0x7f")
  case True
  with assms show ?thesis by (simp add: b64decode_def)
next
  case False
  with assms have a: "a2b_base64 p = Inl e" by (simp add: b64decode_def)
  obtain lb out where l: "a2b_loop p 0 0 0 [] = (lb, out)"
    by (cases "a2b_loop p 0 0 0 []")
  from a show ?thesis
    unfolding a2b_base64_def l by (auto split: if_splits)
qed

lemma decode_not_no_payload:
  assumes "extract_payload t = Inr p" "p \<noteq> []"
  shows "fst (decode_grib_file E t out w) \<noteq>
         Inl (ValueError ''No payload data found. Check message format.'')"
proof (cases "b64decode p")
  case (Inl e)
  from b64decode_error[OF Inl] show ?thesis
    unfolding decode_b64_fail[OF assms Inl] by auto
next
  case (Inr z)
  show ?thesis
  proof (cases "zlib_decompress E z")
    case (Inl m)
    show ?thesis unfolding decode_zlib_fail[OF assms Inr Inl] by simp
  next
    case g: (Inr g)
    show ?thesis
      using assms Inr g
      by (cases "file_io E out g") (simp_all add: decode_grib_file_def decode_body_def)
  qed
qed

lemma find_valid_filter:
  "binascii_find_valid (filter (\<lambda>c. table_a2b_base64 c \<noteq> 255) s) num =
   binascii_find_valid s num"
  if "\<forall>c \<in> set s. (of_char c :: nat) \<le> 0x7f"
  using that by (induction s arbitrary: num) auto

lemma table_skipped:
  "table_a2b_base64 (CHR 0x0D) = 255" "table_a2b_base64 (CHR 0x0A) = 255"
  "table_a2b_base64 (CHR '' '') = 255" "table_a2b_base64 BASE64_PAD = 0"
  by (simp_all add: table_a2b_base64_def BASE64_PAD_def)

lemma a2b_loop_filter:
  "\<forall>c \<in> set s. (of_char c :: nat) \<le> 0x7f \<Longrightarrow>
   a2b_loop (filter (\<lambda>c. table_a2b_base64 c \<noteq> 255) s) quad_pos leftchar leftbits bin_data =
   a2b_loop s quad_pos leftchar leftbits bin_data"
proof (induction s arbitrary: quad_pos leftchar leftbits bin_data)
  case Nil
  show ?case by simp
next
  case (Cons c cs)
  then have ih: "\<And>q l b d. a2b_loop (filter (\<lambda>c. table_a2b_base64 c \<noteq> 255) cs) q l b d =
      a2b_loop cs q l b d"
    and asc: "(of_char c :: nat) \<le> 0x7f" "\<forall>c \<in> set cs. (of_char c :: nat) \<le> 0x7f"
    by simp_all
  show ?case
  proof (cases "table_a2b_base64 c = 255")
    case True
    then have "c \<noteq> BASE64_PAD" using table_skipped(4) by auto
    with True asc ih show ?thesis by simp
  next
    case False
    then have c: "c \<noteq> CHR 0x0D" "c \<noteq> CHR 0x0A" "c \<noteq> CHR '' ''"
      using table_skipped by auto
    have fv: "binascii_find_valid (c # filter (\<lambda>c. table_a2b_base64 c \<noteq> 255) cs) 1 =
        binascii_find_valid (c # cs) 1"
      using find_valid_filter[of "c # cs" 1] asc False by simp
    show ?thesis
    proof (cases "c = BASE64_PAD")
      case True
      have "a2b_loop (c # filter (\<lambda>c. table_a2b_base64 c \<noteq> 255) cs)
              quad_pos leftchar leftbits bin_data =
            a2b_loop (c # cs) quad_pos leftchar leftbits bin_data"
        unfolding a2b_loop.simps fv ih ..
      with False show ?thesis by simp
    next
      case np: False
      show ?thesis
        using False asc c ih np by (simp add: Let_def)
    qed
  qed
qed

lemma b64decode_filter:
  assumes "\<forall>c \<in> set s. (of_char c :: nat) \<le> 0x7f"
  shows "b64decode (filter (\<lambda>c. table_a2b_base64 c \<noteq> 255) s) = b64decode s"
proof -
  have "\<not> (\<exists>c \<in> set s. (of_char c :: nat) > 0x7f)"
    using assms by (auto simp: not_less)
  moreover have "\<not> (\<exists>c \<in> set (filter (\<lambda>c. table_a2b_base64 c \<noteq> 255) s). (of_char c :: nat) > 0x7f)"
    using assms by (auto simp: not_less)
  ultimately show ?thesis
    by (simp add: b64decode_def a2b_base64_def a2b_loop_filter[OF assms])
qed

section \<open>Decimal rendering\<close>

lemma digit_codes: "map of_char ''0123456789'' = [48..<58::nat]"
  by (simp add: upt_rec)

lemma digit_char:
  assumes "n < 10"
  shows "(of_char (''0123456789'' ! n) :: nat) = 48 + n"
proof -
  have len: "length ''0123456789'' = 10" by simp
  have A: "map of_char ''0123456789'' ! n = (of_char (''0123456789'' ! n) :: nat)"
    by (rule nth_map) (simp only: len assms)
  have C: "[48..<58] ! n = 48 + n"
    by (rule nth_upt) (use assms in simp)
  show ?thesis
    by (simp only: A [symmetric] digit_codes C)
qed

lemma digit_mem:
  assumes "n < 10"
  shows "''0123456789'' ! n \<in> set ''0123456789''"
proof -
  have len: "length ''0123456789'' = 10" by simp
  show ?thesis by (rule nth_mem) (simp only: len assms)
qed

lemma decimal_value_snoc:
  "decimal_value (s @ [c]) = 10 * decimal_value s + ((of_char c :: nat) - 48)"
  by (simp add: decimal_value_def)

lemma show_nat_nonempty: "show_nat n \<noteq> []"
  by (subst show_nat.simps) simp

lemma decimal_value_show_nat: "decimal_value (show_nat n) = n"
proof (induction n rule: show_nat.induct)
  case (1 n)
  show ?case
  proof (cases "n < 10")
    case True
    then show ?thesis
      by (subst show_nat.simps) (simp add: decimal_value_def digit_char)
  next
    case False
    have d: "n mod 10 < 10" by simp
    from False 1 have ih: "decimal_value (show_nat (n div 10)) = n div 10" by simp
    from False show ?thesis
      by (subst show_nat.simps) (simp add: decimal_value_snoc ih digit_char[OF d])
  qed
qed

lemma show_nat_digits: "set (show_nat n) \<subseteq> set ''0123456789''"
proof (induction n rule: show_nat.induct)
  case (1 n)
  have single: "x \<in> S \<Longrightarrow> set [x] \<subseteq> S" for x :: char and S by simp
  have snoc: "set xs \<subseteq> S \<Longrightarrow> x \<in> S \<Longrightarrow> set (xs @ [x]) \<subseteq> S"
    for x :: char and xs S by simp
  show ?case
  proof (cases "n < 10")
    case True
    then have e: "show_nat n = [''0123456789'' ! n]"
      by (subst show_nat.simps) simp
    show ?thesis unfolding e by (rule single[OF digit_mem[OF True]])
  next
    case False
    have d: "n mod 10 < 10" by simp
    from False 1 have ih: "set (show_nat (n div 10)) \<subseteq> set ''0123456789''" by simp
    from False have e: "show_nat n = show_nat (n div 10) @ [''0123456789'' ! (n mod 10)]"
      by (subst show_nat.simps) simp
    show ?thesis unfolding e by (rule snoc[OF ih digit_mem[OF d]])
  qed
qed

lemma show_nat_leading:
  "hd (show_nat n) = CHR ''0'' \<Longrightarrow> n = 0"
proof (induction n rule: show_nat.induct)
  case (1 n)
  show ?case
  proof (cases "n < 10")
    case True
    with "1.prems" have "''0123456789'' ! n = CHR ''0''"
      by (subst (asm) show_nat.simps) simp
    then have "(of_char (''0123456789'' ! n) :: nat) = 48" by simp
    with digit_char[OF True] show ?thesis by simp
  next
    case False
    with "1.prems" have "hd (show_nat (n div 10)) = CHR ''0''"
      by (subst (asm) show_nat.simps) (simp add: show_nat_nonempty)
    with False 1 have "n div 10 = 0" by simp
    with False show ?thesis by simp
  qed
qed

lemma payload_indices_cong:
  assumes "\<forall>i. i mod 3 = 1 \<longrightarrow> (i < n1 \<longleftrightarrow> i < n2)"
  shows "filter (\<lambda>i. i mod 3 = 1) [0..<n1] = filter (\<lambda>i. i mod 3 = (1::nat)) [0..<n2]"
proof (rule sorted_distinct_set_unique)
  show "sorted (filter (\<lambda>i. i mod 3 = 1) [0..<n1])" by (rule sorted_wrt_filter) simp
  show "sorted (filter (\<lambda>i. i mod 3 = 1) [0..<n2])" by (rule sorted_wrt_filter) simp
  show "distinct (filter (\<lambda>i. i mod 3 = 1) [0..<n1])" by simp
  show "distinct (filter (\<lambda>i. i mod 3 = 1) [0..<n2])" by simp
  show "set (filter (\<lambda>i. i mod 3 = 1) [0..<n1]) = set (filter (\<lambda>i. i mod 3 = 1) [0..<n2])"
    using assms by auto
qed

section \<open>The claims\<close>

text \<open>
  Claim C1. Whenever \<^verbatim>\<open>decode_grib_file\<close> returns, it returns \<^verbatim>\<open>output_path\<close>; the file
  at \<^verbatim>\<open>output_path\<close> then holds exactly the bytes that \<^verbatim>\<open>zlib.decompress\<close> gives for
  the base64 decoding of the concatenated payload lines, and the line printed last
  reports the path and the number of bytes: the count printed is a non-empty string of
  decimal digits, without a leading zero unless the file is empty, whose value is the
  length of the file.
\<close>

theorem decode_success:
  assumes "fst (decode_grib_file E encoded_data output_path w) = Inr r"
  shows "r = output_path \<and>
    (\<exists>payload zipped_data grib_binary count.
       extract_payload encoded_data = Inr payload \<and>
       b64decode payload = Inr zipped_data \<and>
       zlib_decompress E zipped_data = Inr grib_binary \<and>
       files (snd (decode_grib_file E encoded_data output_path w)) output_path =
         Some grib_binary \<and>
       stdout (snd (decode_grib_file E encoded_data output_path w)) =
         stdout w @
           [''Decoded GRIB file saved to: '' @ output_path @ '' ('' @ count @ '' bytes)''] \<and>
       count = show_nat (length grib_binary) \<and>
       count \<noteq> [] \<and>
       set count \<subseteq> set ''0123456789'' \<and>
       decimal_value count = length grib_binary \<and>
       (hd count = CHR ''0'' \<longrightarrow> grib_binary = []))"
proof -
  from decode_success_cases[OF assms] obtain p z g where
    h: "extract_payload encoded_data = Inr p" "p \<noteq> []" "b64decode p = Inr z"
       "zlib_decompress E z = Inr g" "file_io E output_path g = IoOk"
    by blast
  note eq = decode_ok[OF h, of w]
  let ?count = "show_nat (length g)"
  have r: "r = output_path"
    using assms unfolding eq by simp
  have f: "files (snd (decode_grib_file E encoded_data output_path w)) output_path = Some g"
    unfolding eq by simp
  have s: "stdout (snd (decode_grib_file E encoded_data output_path w)) =
         stdout w @
           [''Decoded GRIB file saved to: '' @ output_path @ '' ('' @ ?count @ '' bytes)'']"
    unfolding eq by simp
  have c: "?count = show_nat (length g)" ..
  have z: "hd ?count = CHR ''0'' \<longrightarrow> g = []"
    using show_nat_leading[of "length g"] by simp
  show ?thesis
    by (intro conjI exI[of _ p] exI[of _ z] exI[of _ g] exI[of _ ?count])
       (fact r h f s c z show_nat_nonempty show_nat_digits decimal_value_show_nat)+
qed

theorem decode_success_witness:
  "fst (decode_grib_file sample_env
          ''\<newline>0\<newline>eJzLSM3JyVcozy\<newline>0\<newline>1\<newline>/KSVEEAB6JBH4=\<newline>1\<newline>'' ''out.grb'' new_world) =
     Inr ''out.grb'' \<and>
   files (snd (decode_grib_file sample_env
          ''\<newline>0\<newline>eJzLSM3JyVcozy\<newline>0\<newline>1\<newline>/KSVEEAB6JBH4=\<newline>1\<newline>'' ''out.grb'' new_world))
     ''out.grb'' = Some hello_world \<and>
   length hello_world = 12 \<and>
   stdout (snd (decode_grib_file sample_env
          ''\<newline>0\<newline>eJzLSM3JyVcozy\<newline>0\<newline>1\<newline>/KSVEEAB6JBH4=\<newline>1\<newline>'' ''out.grb'' new_world)) =
     [''Decoded GRIB file saved to: out.grb (12 bytes)'']"
proof -
  let ?t = "''\<newline>0\<newline>eJzLSM3JyVcozy\<newline>0\<newline>1\<newline>/KSVEEAB6JBH4=\<newline>1\<newline>''"
  have p: "extract_payload ?t = Inr ''eJzLSM3JyVcozy/KSVEEAB6JBH4=''"
    by (simp add: extract_payload_def message_lines_def py_strip_def py_isspace_def
          py_getitem_def Let_def)
  have e: "b64encode zlib_hello = ''eJzLSM3JyVcozy/KSVEEAB6JBH4=''"
    by (simp add: zlib_hello_def table_b2a_base64_def base64_alphabet_def)
  have b: "b64decode ''eJzLSM3JyVcozy/KSVEEAB6JBH4='' = Inr zlib_hello"
    using b64decode_b64encode[of zlib_hello] unfolding e .
  have z: "zlib_decompress sample_env zlib_hello = Inr hello_world"
    by (simp add: sample_env_def zlib_a_def zlib_hello_def)
  have io: "file_io sample_env ''out.grb'' hello_world = IoOk" by (simp add: sample_env_def)
  have ne: "''eJzLSM3JyVcozy/KSVEEAB6JBH4='' \<noteq> []" by simp
  have h: "fst (decode_grib_file sample_env ?t ''out.grb'' new_world) = Inr ''out.grb''"
    unfolding decode_ok[OF p ne b z io] by simp
  have len: "length hello_world = 12" by (simp add: hello_world_def)
  have n: "show_nat 12 = ''12''"
    by (simp add: show_nat.simps)
  from decode_success[OF h] obtain payload zipped_data grib_binary count where
    c: "extract_payload ?t = Inr payload" "b64decode payload = Inr zipped_data"
       "zlib_decompress sample_env zipped_data = Inr grib_binary"
       "files (snd (decode_grib_file sample_env ?t ''out.grb'' new_world)) ''out.grb'' =
          Some grib_binary"
       "stdout (snd (decode_grib_file sample_env ?t ''out.grb'' new_world)) =
         stdout new_world @
           [''Decoded GRIB file saved to: '' @ ''out.grb'' @ '' ('' @ count @ '' bytes)'']"
       "count = show_nat (length grib_binary)"
    by blast
  from c(1) p have "payload = ''eJzLSM3JyVcozy/KSVEEAB6JBH4=''" by simp
  with c(2) b have "zipped_data = zlib_hello" by simp
  with c(3) z have g: "grib_binary = hello_world" by simp
  from c(6) have cnt: "count = ''12''" unfolding g len n .
  have f: "files (snd (decode_grib_file sample_env ?t ''out.grb'' new_world)) ''out.grb'' =
      Some hello_world"
    using c(4) unfolding g .
  have s: "stdout (snd (decode_grib_file sample_env ?t ''out.grb'' new_world)) =
     [''Decoded GRIB file saved to: out.grb (12 bytes)'']"
    using c(5) unfolding cnt by (simp add: new_world_def)
  from h f len s show ?thesis by (intro conjI)
qed

text \<open>
  Claim C5. When the concatenated payload is the empty string, in particular when every
  line at a payload position is empty, \<^verbatim>\<open>decode_grib_file\<close> raises the \<^verbatim>\<open>ValueError\<close>
  "No payload data found. Check message format." (the spec's FormatError), prints it,
  and leaves every file as it was.
\<close>

theorem empty_payload_format_error:
  assumes "extract_payload encoded_data = Inr [] \<or>
    (\<forall>i < length (message_lines encoded_data).
       i mod 3 = 1 \<longrightarrow> message_lines encoded_data ! i = [])"
  shows "decode_grib_file E encoded_data output_path w =
     (Inl (ValueError ''No payload data found. Check message format.''),
      w\<lparr>stdout := stdout w @
         [''Error decoding GRIB file: No payload data found. Check message format.'']\<rparr>) \<and>
    files (snd (decode_grib_file E encoded_data output_path w)) = files w"
proof -
  from assms have "extract_payload encoded_data = Inr []"
    by (simp add: extract_payload_empty_iff)
  then show ?thesis by (simp add: decode_empty)
qed

theorem empty_payload_format_error_witness:
  "(extract_payload ''0\<newline>\<newline>0'' = Inr [] \<or>
    (\<forall>i < length (message_lines ''0\<newline>\<newline>0'').
       i mod 3 = 1 \<longrightarrow> message_lines ''0\<newline>\<newline>0'' ! i = [])) \<and>
   decode_grib_file sample_env ''0\<newline>\<newline>0'' ''out.grb'' old_world =
     (Inl (ValueError ''No payload data found. Check message format.''),
      old_world\<lparr>stdout := stdout old_world @
         [''Error decoding GRIB file: No payload data found. Check message format.'']\<rparr>) \<and>
   files (snd (decode_grib_file sample_env ''0\<newline>\<newline>0'' ''out.grb'' old_world)) ''out.grb'' =
     Some [1, 2, 3]"
proof -
  have h: "extract_payload ''0\<newline>\<newline>0'' = Inr []"
    by (simp add: extract_payload_def message_lines_def py_strip_def py_isspace_def
          py_getitem_def Let_def)
  then have h': "extract_payload ''0\<newline>\<newline>0'' = Inr [] \<or>
    (\<forall>i < length (message_lines ''0\<newline>\<newline>0'').
       i mod 3 = 1 \<longrightarrow> message_lines ''0\<newline>\<newline>0'' ! i = [])" ..
  from h' empty_payload_format_error[OF h', of sample_env "''out.grb''" old_world]
  show ?thesis by (simp add: old_world_def)
qed

text \<open>
  Claim C4. When decoding fails at the payload check, at the base64 step or at the zlib
  step, \<^verbatim>\<open>decode_grib_file\<close> raises and the files are exactly those from before the call:
  the output file is neither created nor overwritten.
\<close>

theorem no_write_on_decode_failure:
  assumes "extract_payload encoded_data = Inr payload"
    and "payload = [] \<or> (\<exists>e. b64decode payload = Inl e) \<or>
         (\<exists>zipped_data m. b64decode payload = Inr zipped_data \<and>
            zlib_decompress E zipped_data = Inl m)"
  shows "(\<exists>e. fst (decode_grib_file E encoded_data output_path w) = Inl e) \<and>
         files (snd (decode_grib_file E encoded_data output_path w)) = files w"
proof (cases "payload = []")
  case True
  with assms(1) show ?thesis by (simp add: decode_empty)
next
  case False
  with assms(2) consider
      e where "b64decode payload = Inl e"
    | z m where "b64decode payload = Inr z" "zlib_decompress E z = Inl m"
    by blast
  then show ?thesis
  proof cases
    case 1
    show ?thesis
      unfolding decode_b64_fail[OF assms(1) False 1] by simp
  next
    case 2
    show ?thesis
      unfolding decode_zlib_fail[OF assms(1) False 2] by simp
  qed
qed

theorem no_write_on_decode_failure_witness:
  "extract_payload ''0\<newline>QUFB\<newline>0'' = Inr ''QUFB'' \<and>
   b64decode ''QUFB'' = Inr [65, 65, 65] \<and>
   zlib_decompress sample_env [65, 65, 65] =
     Inl ''Error -3 while decompressing data: incorrect header check'' \<and>
   (\<exists>e. fst (decode_grib_file sample_env ''0\<newline>QUFB\<newline>0'' ''out.grb'' old_world) = Inl e) \<and>
   files (snd (decode_grib_file sample_env ''0\<newline>QUFB\<newline>0'' ''out.grb'' old_world)) =
     files old_world \<and>
   files old_world ''out.grb'' = Some [1, 2, 3]"
proof -
  have p: "extract_payload ''0\<newline>QUFB\<newline>0'' = Inr ''QUFB''"
    by (simp add: extract_payload_def message_lines_def py_strip_def py_isspace_def
          py_getitem_def Let_def)
  have b: "b64decode ''QUFB'' = Inr [65, 65, 65]"
    by (simp add: b64decode_def a2b_base64_def BASE64_PAD_def table_a2b_base64_def Let_def)
  have z: "zlib_decompress sample_env [65, 65, 65] =
     Inl ''Error -3 while decompressing data: incorrect header check''"
    by (simp add: sample_env_def zlib_a_def zlib_hello_def)
  have h: "''QUFB'' = [] \<or> (\<exists>e. b64decode ''QUFB'' = Inl e) \<or>
         (\<exists>zipped_data m. b64decode ''QUFB'' = Inr zipped_data \<and>
            zlib_decompress sample_env zipped_data = Inl m)"
    using b z by blast
  have o: "files old_world ''out.grb'' = Some [1, 2, 3]"
    by (simp add: old_world_def)
  note c = no_write_on_decode_failure[OF p h, of "''out.grb''" old_world]
  from p b z c o show ?thesis by (intro conjI) (erule conjunct1 conjunct2 | assumption)+
qed

text \<open>
  Claim C9. Two successful calls on the same text, to any output paths and from any
  states of the file system, leave the same bytes in their output files.
\<close>

theorem decode_deterministic:
  assumes "fst (decode_grib_file E encoded_data path1 w1) = Inr r1"
    and "fst (decode_grib_file E encoded_data path2 w2) = Inr r2"
  shows "\<exists>grib_binary.
     files (snd (decode_grib_file E encoded_data path1 w1)) path1 = Some grib_binary \<and>
     files (snd (decode_grib_file E encoded_data path2 w2)) path2 = Some grib_binary"
proof -
  from decode_success_cases[OF assms(1)] obtain p z g where
    h1: "extract_payload encoded_data = Inr p" "p \<noteq> []" "b64decode p = Inr z"
        "zlib_decompress E z = Inr g" "file_io E path1 g = IoOk"
    by blast
  from decode_success_cases[OF assms(2)] obtain p' z' g' where
    h2: "extract_payload encoded_data = Inr p'" "p' \<noteq> []" "b64decode p' = Inr z'"
        "zlib_decompress E z' = Inr g'" "file_io E path2 g' = IoOk"
    by blast
  from h1 h2 have "p' = p" by simp
  with h1 h2 have "z' = z" by simp
  with h1 h2 have g: "g' = g" by simp
  have f1: "files (snd (decode_grib_file E encoded_data path1 w1)) path1 = Some g"
    unfolding decode_ok[OF h1] by simp
  have f2: "files (snd (decode_grib_file E encoded_data path2 w2)) path2 = Some g"
    unfolding decode_ok[OF h2] g by simp
  from f1 f2 show ?thesis by (intro exI[of _ g] conjI)
qed

theorem decode_deterministic_witness:
  "fst (decode_grib_file sample_env ''\<newline>0\<newline>eJxLBAAAYgBi\<newline>0\<newline>'' ''a.grb'' new_world) = Inr ''a.grb'' \<and>
   fst (decode_grib_file sample_env ''\<newline>0\<newline>eJxLBAAAYgBi\<newline>0\<newline>'' ''out.grb'' old_world) =
     Inr ''out.grb'' \<and>
   (\<exists>grib_binary.
     files (snd (decode_grib_file sample_env ''\<newline>0\<newline>eJxLBAAAYgBi\<newline>0\<newline>'' ''a.grb'' new_world))
       ''a.grb'' = Some grib_binary \<and>
     files (snd (decode_grib_file sample_env ''\<newline>0\<newline>eJxLBAAAYgBi\<newline>0\<newline>'' ''out.grb'' old_world))
       ''out.grb'' = Some grib_binary)"
proof -
  have h1: "fst (decode_grib_file sample_env ''\<newline>0\<newline>eJxLBAAAYgBi\<newline>0\<newline>'' ''a.grb'' new_world) =
      Inr ''a.grb''"
    unfolding sample_decode by simp
  have h2: "fst (decode_grib_file sample_env ''\<newline>0\<newline>eJxLBAAAYgBi\<newline>0\<newline>'' ''out.grb'' old_world) =
      Inr ''out.grb''"
    unfolding sample_decode by simp
  from h1 h2 decode_deterministic[OF h1 h2] show ?thesis by (intro conjI)
qed

text \<open>
  Claim C10. The payload selection reads \<^verbatim>\<open>lines[i]\<close> only at indices of the line list:
  every index that \<^verbatim>\<open>range(len(lines))\<close> produces is in range, so the selection never
  raises \<^verbatim>\<open>IndexError\<close>. The line list is never empty; a text with fewer than two lines
  after trimming (the empty text among them) has an empty payload, and the call ends in
  the no-payload \<^verbatim>\<open>ValueError\<close>.
\<close>

theorem selection_in_range:
  "message_lines encoded_data \<noteq> [] \<and>
   (\<forall>i \<in> set [0..<length (message_lines encoded_data)].
      \<exists>l. py_getitem (message_lines encoded_data) i = Inr l) \<and>
   (\<exists>payload. extract_payload encoded_data = Inr payload) \<and>
   (length (message_lines encoded_data) < 2 \<longrightarrow>
      extract_payload encoded_data = Inr [] \<and>
      fst (decode_grib_file E encoded_data output_path w) =
        Inl (ValueError ''No payload data found. Check message format.''))"
proof (intro conjI impI)
  show "message_lines encoded_data \<noteq> []" by (rule message_lines_nonempty)
  show "\<forall>i \<in> set [0..<length (message_lines encoded_data)].
      \<exists>l. py_getitem (message_lines encoded_data) i = Inr l"
    by (simp add: py_getitem_def)
  show "\<exists>payload. extract_payload encoded_data = Inr payload"
    by (simp add: extract_payload_eq)
next
  assume short: "length (message_lines encoded_data) < 2"
  then have "(length (message_lines encoded_data) + 1) div 3 = 0" by simp
  then show e: "extract_payload encoded_data = Inr []"
    unfolding extract_payload_nth by simp
  show "fst (decode_grib_file E encoded_data output_path w) =
        Inl (ValueError ''No payload data found. Check message format.'')"
    unfolding decode_empty[OF e] by simp
qed

theorem selection_in_range_witness:
  "length (message_lines '''') < 2 \<and>
   extract_payload '''' = Inr [] \<and>
   fst (decode_grib_file sample_env '''' ''out.grb'' new_world) =
     Inl (ValueError ''No payload data found. Check message format.'') \<and>
   (\<exists>payload. extract_payload ''0\<newline>eJxLBAAAYgBi'' = Inr payload)"
proof -
  have s: "length (message_lines '''') < 2"
    by (simp add: message_lines_def py_strip_def)
  from s selection_in_range[of "''''" sample_env "''out.grb''" new_world]
    selection_in_range[of "''0\<newline>eJxLBAAAYgBi''" sample_env "''out.grb''" new_world]
  show ?thesis by blast
qed

text \<open>
  Claim C2. Round trip. Let \<open>zipped_data\<close> be a zlib stream of the bytes \<open>B\<close> (a
  non-empty byte sequence that \<^verbatim>\<open>zlib.decompress\<close> turns into \<open>B\<close>). Cut its base64
  text into payload lines in any way, put each between two marker lines (non-empty,
  without whitespace, as the numeric markers are), join all lines with line feeds and
  surround the text with any whitespace. Then \<^verbatim>\<open>decode_grib_file\<close> on that text, in an
  environment where the write succeeds, returns the output path and the output file
  holds exactly \<open>B\<close>.
\<close>

theorem round_trip:
  assumes "parts \<noteq> []"
    and "\<forall>(m1, p, m2) \<in> set parts.
        m1 \<noteq> [] \<and> m2 \<noteq> [] \<and> (\<forall>c \<in> set m1 \<union> set m2. \<not> py_isspace c)"
    and "concat (map (\<lambda>(m1, p, m2). p) parts) = b64encode zipped_data"
    and "\<forall>c \<in> set pre. py_isspace c"
    and "\<forall>c \<in> set post. py_isspace c"
    and "zipped_data \<noteq> []"
    and "zlib_decompress E zipped_data = Inr B"
    and "file_io E output_path B = IoOk"
  shows "decode_grib_file E (pre @ transmission parts @ post) output_path w =
     (Inr output_path,
      w\<lparr>files := (files w)(output_path \<mapsto> B),
        stdout := stdout w @
          [''Decoded GRIB file saved to: '' @ output_path @ '' ('' @
           show_nat (length B) @ '' bytes)'']\<rparr>)"
proof -
  let ?t = "pre @ transmission parts @ post"
  have lines: "\<forall>(m1, p, m2) \<in> set parts. CHR 0x0A \<notin> set p"
  proof (clarify)
    fix m1 p m2 assume m: "(m1, p, m2) \<in> set parts" and c: "CHR 0x0A \<in> set p"
    from m have "p \<in> set (map (\<lambda>(m1, p, m2). p) parts)" by force
    with c have "CHR 0x0A \<in> set (concat (map (\<lambda>(m1, p, m2). p) parts))"
      unfolding set_concat by blast
    then have "CHR 0x0A \<in> set (b64encode zipped_data)" by (simp only: assms(3))
    from b64encode_chars[OF this] show False by simp
  qed
  have ml: "message_lines ?t = part_lines parts"
    by (rule message_lines_transmission[OF assms(1,2) lines assms(4,5)])
  have p: "extract_payload ?t = Inr (b64encode zipped_data)"
    unfolding extract_payload_nth ml payload_of_part_lines assms(3) ..
  show ?thesis
    by (rule decode_ok[OF p b64encode_nonempty[OF assms(6)] b64decode_b64encode assms(7,8)])
qed

theorem round_trip_witness:
  "b64encode zlib_a = ''eJxLBA'' @ ''AAYgBi'' \<and>
   zlib_decompress sample_env zlib_a = Inr [97] \<and>
   decode_grib_file sample_env
     ''\<newline>0\<newline>eJxLBA\<newline>0\<newline>1\<newline>AAYgBi\<newline>1\<newline>'' ''out.grb'' new_world =
     (Inr ''out.grb'',
      new_world\<lparr>files := (files new_world)(''out.grb'' \<mapsto> [97]),
        stdout := stdout new_world @ [''Decoded GRIB file saved to: out.grb (1 bytes)'']\<rparr>)"
proof -
  let ?parts = "[(''0'', ''eJxLBA'', ''0''), (''1'', ''AAYgBi'', ''1'')]"
  have a1: "?parts \<noteq> []" by simp
  have a2: "\<forall>(m1, p, m2) \<in> set ?parts.
        m1 \<noteq> [] \<and> m2 \<noteq> [] \<and> (\<forall>c \<in> set m1 \<union> set m2. \<not> py_isspace c)"
    by (simp add: py_isspace_def)
  have e: "b64encode zlib_a = ''eJxLBA'' @ ''AAYgBi''"
    by (simp add: zlib_a_def table_b2a_base64_def base64_alphabet_def)
  have a3: "concat (map (\<lambda>(m1, p, m2). p) ?parts) = b64encode zlib_a"
    unfolding e by simp
  have a4: "\<forall>c \<in> set ''\<newline>''. py_isspace c" by (simp add: py_isspace_def)
  have a6: "zlib_a \<noteq> []" by (simp add: zlib_a_def)
  have a7: "zlib_decompress sample_env zlib_a = Inr [97]" by (simp add: sample_env_def)
  have a8: "file_io sample_env ''out.grb'' [97] = IoOk" by (simp add: sample_env_def)
  have t: "''\<newline>'' @ transmission ?parts @ ''\<newline>'' =
      ''\<newline>0\<newline>eJxLBA\<newline>0\<newline>1\<newline>AAYgBi\<newline>1\<newline>''"
    by (simp add: transmission_def)
  have n: "show_nat (length [97::byte]) = ''1''" by (simp add: show_nat.simps)
  from e a7 round_trip[OF a1 a2 a3 a4 a4 a6 a7 a8, of new_world, unfolded t n]
  show ?thesis by simp
qed

text \<open>
  Claim C3. The payload that \<^verbatim>\<open>decode_grib_file\<close> builds: the text is the trimmed text
  between two runs of whitespace, and the trimmed text neither starts nor ends with
  whitespace; its lines are the pieces between line feeds; the payload is the
  concatenation, without separator and in order, of exactly the lines at the 0-based
  positions \<open>i\<close> with \<open>i mod 3 = 1\<close>.
\<close>

theorem payload_selection:
  "(\<exists>pre post.
      encoded_data = pre @ py_strip encoded_data @ post \<and>
      (\<forall>c \<in> set pre. py_isspace c) \<and> (\<forall>c \<in> set post. py_isspace c) \<and>
      (py_strip encoded_data \<noteq> [] \<longrightarrow>
         \<not> py_isspace (hd (py_strip encoded_data)) \<and>
         \<not> py_isspace (last (py_strip encoded_data)))) \<and>
   join_nl (message_lines encoded_data) = py_strip encoded_data \<and>
   (\<forall>l \<in> set (message_lines encoded_data). CHR 0x0A \<notin> set l) \<and>
   extract_payload encoded_data =
     Inr (concat (map (\<lambda>i. message_lines encoded_data ! i)
            (filter (\<lambda>i. i mod 3 = 1) [0..<length (message_lines encoded_data)])))"
proof (intro conjI)
  show "\<exists>pre post.
      encoded_data = pre @ py_strip encoded_data @ post \<and>
      (\<forall>c \<in> set pre. py_isspace c) \<and> (\<forall>c \<in> set post. py_isspace c) \<and>
      (py_strip encoded_data \<noteq> [] \<longrightarrow>
         \<not> py_isspace (hd (py_strip encoded_data)) \<and>
         \<not> py_isspace (last (py_strip encoded_data)))"
    by (rule py_strip_decomp)
  show "join_nl (message_lines encoded_data) = py_strip encoded_data"
    unfolding message_lines_def by (rule join_nl_py_split_nl)
  show "\<forall>l \<in> set (message_lines encoded_data). CHR 0x0A \<notin> set l"
    unfolding message_lines_def using py_split_nl_no_newline by blast
  show "extract_payload encoded_data =
     Inr (concat (map (\<lambda>i. message_lines encoded_data ! i)
            (filter (\<lambda>i. i mod 3 = 1) [0..<length (message_lines encoded_data)])))"
    by (rule extract_payload_eq)
qed

theorem payload_selection_witness:
  "message_lines '' \<newline>0\<newline>abc\<newline>0\<newline>1\<newline>def\<newline>1\<newline>'' =
     [''0'', ''abc'', ''0'', ''1'', ''def'', ''1''] \<and>
   extract_payload '' \<newline>0\<newline>abc\<newline>0\<newline>1\<newline>def\<newline>1\<newline>'' = Inr ''abcdef''"
proof -
  have l: "message_lines '' \<newline>0\<newline>abc\<newline>0\<newline>1\<newline>def\<newline>1\<newline>'' =
     [''0'', ''abc'', ''0'', ''1'', ''def'', ''1'']"
    by (simp add: message_lines_def py_strip_def py_isspace_def)
  have e: "extract_payload '' \<newline>0\<newline>abc\<newline>0\<newline>1\<newline>def\<newline>1\<newline>'' =
     Inr (concat (map (\<lambda>i. message_lines '' \<newline>0\<newline>abc\<newline>0\<newline>1\<newline>def\<newline>1\<newline>'' ! i)
            (filter (\<lambda>i. i mod 3 = 1)
               [0..<length (message_lines '' \<newline>0\<newline>abc\<newline>0\<newline>1\<newline>def\<newline>1\<newline>'')])))"
    using payload_selection[of "'' \<newline>0\<newline>abc\<newline>0\<newline>1\<newline>def\<newline>1\<newline>''"] by blast
  have "extract_payload '' \<newline>0\<newline>abc\<newline>0\<newline>1\<newline>def\<newline>1\<newline>'' = Inr ''abcdef''"
    unfolding e l by (simp add: upt_rec)
  with l show ?thesis by (rule conjI)
qed

text \<open>
  Claim C6, as stated, fails: a payload holding \<^verbatim>\<open>!\<close>, which is not in the base64
  alphabet, decodes and the file is written. \<^verbatim>\<open>base64.b64decode\<close> is called without
  \<^verbatim>\<open>validate=True\<close> and discards such characters.
\<close>

theorem nonalphabet_payload_decodes:
  "extract_payload ''0\<newline>eJxL!BAAAYgBi\<newline>0'' = Inr ''eJxL!BAAAYgBi'' \<and>
   CHR ''!'' \<in> set ''eJxL!BAAAYgBi'' \<and>
   CHR ''!'' \<notin> set base64_alphabet \<and>
   fst (decode_grib_file sample_env ''0\<newline>eJxL!BAAAYgBi\<newline>0'' ''out.grb'' new_world) =
     Inr ''out.grb'' \<and>
   files (snd (decode_grib_file sample_env ''0\<newline>eJxL!BAAAYgBi\<newline>0'' ''out.grb'' new_world))
     ''out.grb'' = Some [97]"
proof -
  have p: "extract_payload ''0\<newline>eJxL!BAAAYgBi\<newline>0'' = Inr ''eJxL!BAAAYgBi''"
    by (simp add: extract_payload_def message_lines_def py_strip_def py_isspace_def
          py_getitem_def Let_def)
  have b: "b64decode ''eJxL!BAAAYgBi'' = Inr zlib_a"
    by (simp add: b64decode_def a2b_base64_def BASE64_PAD_def table_a2b_base64_def Let_def
          zlib_a_def)
  have z: "zlib_decompress sample_env zlib_a = Inr [97]" by (simp add: sample_env_def)
  have io: "file_io sample_env ''out.grb'' [97] = IoOk" by (simp add: sample_env_def)
  have ne: "''eJxL!BAAAYgBi'' \<noteq> []" by simp
  note d = decode_ok[OF p ne b z io, of new_world]
  have m: "CHR ''!'' \<in> set ''eJxL!BAAAYgBi''" by simp
  have n: "CHR ''!'' \<notin> set base64_alphabet" by (simp add: base64_alphabet_def)
  have f: "fst (decode_grib_file sample_env ''0\<newline>eJxL!BAAAYgBi\<newline>0'' ''out.grb'' new_world) =
     Inr ''out.grb''"
    unfolding d by simp
  have g: "files (snd (decode_grib_file sample_env ''0\<newline>eJxL!BAAAYgBi\<newline>0'' ''out.grb''
      new_world)) ''out.grb'' = Some [97]"
    unfolding d by simp
  from p m n f g show ?thesis by (intro conjI)
qed

text \<open>
  Claim C6, amended. When the concatenated payload holds a character that is not ASCII,
  \<^verbatim>\<open>decode_grib_file\<close> fails at the base64 step, with the \<^verbatim>\<open>ValueError\<close> of
  \<^verbatim>\<open>base64.b64decode\<close>, prints it and leaves every file as it was. In a payload of ASCII
  characters, the characters that the decoder's table does not know (those outside the
  alphabet, the pad character apart) are discarded: the payload decodes exactly as the
  payload without them.
\<close>

theorem non_ascii_payload_rejected:
  assumes "extract_payload encoded_data = Inr payload"
  shows "((\<exists>c \<in> set payload. (of_char c :: nat) > 0x7f) \<longrightarrow>
       decode_grib_file E encoded_data output_path w =
         (Inl (ValueError ''string argument should contain only ASCII characters''),
          w\<lparr>stdout := stdout w @
            [''Error decoding GRIB file: string argument should contain only ASCII characters'']\<rparr>) \<and>
       files (snd (decode_grib_file E encoded_data output_path w)) = files w) \<and>
     ((\<forall>c \<in> set payload. (of_char c :: nat) \<le> 0x7f) \<longrightarrow>
       b64decode payload = b64decode (filter (\<lambda>c. table_a2b_base64 c \<noteq> 255) payload))"
proof (intro conjI impI)
  assume na: "\<exists>c \<in> set payload. (of_char c :: nat) > 0x7f"
  then have ne: "payload \<noteq> []" by auto
  from na have b: "b64decode payload =
      Inl (ValueError ''string argument should contain only ASCII characters'')"
    by (simp add: b64decode_def)
  note d = decode_b64_fail[OF assms ne b, of E output_path w]
  show "decode_grib_file E encoded_data output_path w =
         (Inl (ValueError ''string argument should contain only ASCII characters''),
          w\<lparr>stdout := stdout w @
            [''Error decoding GRIB file: string argument should contain only ASCII characters'']\<rparr>)"
    unfolding d by simp
  show "files (snd (decode_grib_file E encoded_data output_path w)) = files w"
    unfolding d by simp
next
  assume "\<forall>c \<in> set payload. (of_char c :: nat) \<le> 0x7f"
  then show "b64decode payload = b64decode (filter (\<lambda>c. table_a2b_base64 c \<noteq> 255) payload)"
    by (rule b64decode_filter[symmetric])
qed

theorem non_ascii_payload_rejected_witness:
  "extract_payload [CHR ''0'', CHR 0x0A, CHR ''A'', CHR 0xE9, CHR 0x0A, CHR ''0''] =
     Inr [CHR ''A'', CHR 0xE9] \<and>
   fst (decode_grib_file sample_env [CHR ''0'', CHR 0x0A, CHR ''A'', CHR 0xE9, CHR 0x0A, CHR ''0'']
          ''out.grb'' old_world) =
     Inl (ValueError ''string argument should contain only ASCII characters'') \<and>
   files (snd (decode_grib_file sample_env
            [CHR ''0'', CHR 0x0A, CHR ''A'', CHR 0xE9, CHR 0x0A, CHR ''0''] ''out.grb'' old_world))
     ''out.grb'' = Some [1, 2, 3] \<and>
   extract_payload ''0\<newline>eJxL!BAAAYgBi\<newline>0'' = Inr ''eJxL!BAAAYgBi'' \<and>
   b64decode ''eJxL!BAAAYgBi'' = b64decode ''eJxLBAAAYgBi''"
proof -
  let ?t = "[CHR ''0'', CHR 0x0A, CHR ''A'', CHR 0xE9, CHR 0x0A, CHR ''0'']"
  have p: "extract_payload ?t = Inr [CHR ''A'', CHR 0xE9]"
    by (simp add: extract_payload_def message_lines_def py_strip_def py_isspace_def
          py_getitem_def Let_def)
  have na: "\<exists>c \<in> set [CHR ''A'', CHR 0xE9]. (of_char c :: nat) > 0x7f" by simp
  have o: "files old_world ''out.grb'' = Some [1, 2, 3]" by (simp add: old_world_def)
  from non_ascii_payload_rejected[OF p, of sample_env "''out.grb''" old_world] na
  have d: "decode_grib_file sample_env ?t ''out.grb'' old_world =
         (Inl (ValueError ''string argument should contain only ASCII characters''),
          old_world\<lparr>stdout := stdout old_world @
            [''Error decoding GRIB file: string argument should contain only ASCII characters'']\<rparr>)"
    by blast
  have f: "fst (decode_grib_file sample_env ?t ''out.grb'' old_world) =
     Inl (ValueError ''string argument should contain only ASCII characters'')"
    unfolding d by simp
  have g: "files (snd (decode_grib_file sample_env ?t ''out.grb'' old_world)) ''out.grb'' =
      Some [1, 2, 3]"
    unfolding d using o by simp
  have p': "extract_payload ''0\<newline>eJxL!BAAAYgBi\<newline>0'' = Inr ''eJxL!BAAAYgBi''"
    by (simp add: extract_payload_def message_lines_def py_strip_def py_isspace_def
          py_getitem_def Let_def)
  have a: "\<forall>c \<in> set ''eJxL!BAAAYgBi''. (of_char c :: nat) \<le> 0x7f" by simp
  have k: "filter (\<lambda>c. table_a2b_base64 c \<noteq> 255) ''eJxL!BAAAYgBi'' = ''eJxLBAAAYgBi''"
    by (simp add: table_a2b_base64_def)
  from non_ascii_payload_rejected[OF p', of sample_env "''out.grb''" new_world] a
  have "b64decode ''eJxL!BAAAYgBi'' =
      b64decode (filter (\<lambda>c. table_a2b_base64 c \<noteq> 255) ''eJxL!BAAAYgBi'')"
    by blast
  then have h: "b64decode ''eJxL!BAAAYgBi'' = b64decode ''eJxLBAAAYgBi''"
    by (simp only: k)
  from p f g p' h show ?thesis by (intro conjI)
qed

text \<open>
  Claim C7, as stated, fails: a text of two lines, whose line count is not a multiple of
  3, decodes and the file is written. The function never looks at the line count.
\<close>

theorem two_line_text_decodes:
  "length (message_lines ''0\<newline>eJxLBAAAYgBi'') = 2 \<and>
   fst (decode_grib_file sample_env ''0\<newline>eJxLBAAAYgBi'' ''out.grb'' new_world) =
     Inr ''out.grb'' \<and>
   files (snd (decode_grib_file sample_env ''0\<newline>eJxLBAAAYgBi'' ''out.grb'' new_world))
     ''out.grb'' = Some [97]"
proof -
  have l: "length (message_lines ''0\<newline>eJxLBAAAYgBi'') = 2"
    by (simp add: message_lines_def py_strip_def py_isspace_def)
  have p: "extract_payload ''0\<newline>eJxLBAAAYgBi'' = Inr ''eJxLBAAAYgBi''"
    by (simp add: extract_payload_def message_lines_def py_strip_def py_isspace_def
          py_getitem_def Let_def)
  have z: "zlib_decompress sample_env zlib_a = Inr [97]" by (simp add: sample_env_def)
  have io: "file_io sample_env ''out.grb'' [97] = IoOk" by (simp add: sample_env_def)
  have ne: "''eJxLBAAAYgBi'' \<noteq> []" by simp
  note d = decode_ok[OF p ne sample_b64decode z io, of new_world]
  have f: "fst (decode_grib_file sample_env ''0\<newline>eJxLBAAAYgBi'' ''out.grb'' new_world) =
     Inr ''out.grb''"
    unfolding d by simp
  have g: "files (snd (decode_grib_file sample_env ''0\<newline>eJxLBAAAYgBi'' ''out.grb'' new_world))
     ''out.grb'' = Some [97]"
    unfolding d by simp
  from l f g show ?thesis by (intro conjI)
qed

text \<open>
  Claim C7, amended. For a text whose trimmed line count is not a multiple of 3,
  \<^verbatim>\<open>decode_grib_file\<close> raises the no-payload \<^verbatim>\<open>ValueError\<close> exactly when every line at a
  payload position is empty (so always when there is one line only), and then it leaves
  every file as it was. The line count itself is not checked.
\<close>

theorem line_count_not_checked:
  assumes "length (message_lines encoded_data) mod 3 \<noteq> 0"
  shows "(fst (decode_grib_file E encoded_data output_path w) =
            Inl (ValueError ''No payload data found. Check message format.'') \<longleftrightarrow>
          (\<forall>i < length (message_lines encoded_data).
             i mod 3 = 1 \<longrightarrow> message_lines encoded_data ! i = [])) \<and>
         (fst (decode_grib_file E encoded_data output_path w) =
            Inl (ValueError ''No payload data found. Check message format.'') \<longrightarrow>
          files (snd (decode_grib_file E encoded_data output_path w)) = files w)"
proof -
  let ?r = "decode_grib_file E encoded_data output_path w"
  let ?e = "Inl (ValueError ''No payload data found. Check message format.'')"
  let ?empty = "\<forall>i < length (message_lines encoded_data).
             i mod 3 = 1 \<longrightarrow> message_lines encoded_data ! i = []"
  obtain p where p: "extract_payload encoded_data = Inr p"
    using extract_payload_eq by blast
  have 1: "fst ?r = ?e \<and> files (snd ?r) = files w" if "?empty"
  proof -
    from that have e: "extract_payload encoded_data = Inr []"
      by (simp only: extract_payload_empty_iff)
    show ?thesis unfolding decode_empty[OF e] by simp
  qed
  have 2: "fst ?r \<noteq> ?e" if "\<not> ?empty"
  proof -
    from that have "extract_payload encoded_data \<noteq> Inr []"
      by (simp only: extract_payload_empty_iff not_False_eq_True)
    with p have "p \<noteq> []" by auto
    from decode_not_no_payload[OF p this] show ?thesis .
  qed
  from 1 2 show ?thesis by blast
qed

theorem line_count_not_checked_witness:
  "length (message_lines ''0\<newline>\<newline>0\<newline>1'') mod 3 = 1 \<and>
   fst (decode_grib_file sample_env ''0\<newline>\<newline>0\<newline>1'' ''out.grb'' old_world) =
     Inl (ValueError ''No payload data found. Check message format.'') \<and>
   files (snd (decode_grib_file sample_env ''0\<newline>\<newline>0\<newline>1'' ''out.grb'' old_world)) =
     files old_world"
proof -
  have l: "message_lines ''0\<newline>\<newline>0\<newline>1'' = [''0'', [], ''0'', ''1'']"
    by (simp add: message_lines_def py_strip_def py_isspace_def)
  have m: "length (message_lines ''0\<newline>\<newline>0\<newline>1'') mod 3 = 1"
    unfolding l by simp
  then have h: "length (message_lines ''0\<newline>\<newline>0\<newline>1'') mod 3 \<noteq> 0" by simp
  have e: "\<forall>i < length (message_lines ''0\<newline>\<newline>0\<newline>1'').
      i mod 3 = 1 \<longrightarrow> message_lines ''0\<newline>\<newline>0\<newline>1'' ! i = []"
    unfolding l by (simp add: less_Suc_eq)
  from line_count_not_checked[OF h, of sample_env "''out.grb''" old_world] e
  have "fst (decode_grib_file sample_env ''0\<newline>\<newline>0\<newline>1'' ''out.grb'' old_world) =
     Inl (ValueError ''No payload data found. Check message format.'') \<and>
   files (snd (decode_grib_file sample_env ''0\<newline>\<newline>0\<newline>1'' ''out.grb'' old_world)) =
     files old_world"
    by blast
  with m show ?thesis by (rule conjI)
qed

text \<open>
  Claim C8, as stated, fails: the two texts below have the same number of lines and the
  same line at position 1, and differ in the first marker line only, which is empty in
  the second. \<^verbatim>\<open>strip()\<close> removes the empty line, every position shifts by one, and the
  second text, whose payload is now the marker \<^verbatim>\<open>0\<close>, is rejected by the base64 decoder
  while the first decodes.
\<close>

theorem blank_first_marker_changes_result:
  "py_split_nl ''0\<newline>eJxLBAAAYgBi\<newline>0'' = [''0'', ''eJxLBAAAYgBi'', ''0''] \<and>
   py_split_nl ''\<newline>eJxLBAAAYgBi\<newline>0'' = ['''', ''eJxLBAAAYgBi'', ''0''] \<and>
   fst (decode_grib_file sample_env ''0\<newline>eJxLBAAAYgBi\<newline>0'' ''out.grb'' new_world) =
     Inr ''out.grb'' \<and>
   files (snd (decode_grib_file sample_env ''0\<newline>eJxLBAAAYgBi\<newline>0'' ''out.grb'' new_world))
     ''out.grb'' = Some [97] \<and>
   fst (decode_grib_file sample_env ''\<newline>eJxLBAAAYgBi\<newline>0'' ''out.grb'' new_world) =
     Inl (BinasciiError
       ''Invalid base64-encoded string: number of data characters (1) cannot be 1 more than a multiple of 4'') \<and>
   files (snd (decode_grib_file sample_env ''\<newline>eJxLBAAAYgBi\<newline>0'' ''out.grb'' new_world))
     ''out.grb'' = None"
proof -
  have l1: "py_split_nl ''0\<newline>eJxLBAAAYgBi\<newline>0'' = [''0'', ''eJxLBAAAYgBi'', ''0'']" by simp
  have l2: "py_split_nl ''\<newline>eJxLBAAAYgBi\<newline>0'' = ['''', ''eJxLBAAAYgBi'', ''0'']" by simp
  have p1: "extract_payload ''0\<newline>eJxLBAAAYgBi\<newline>0'' = Inr ''eJxLBAAAYgBi''"
    by (simp add: extract_payload_def message_lines_def py_strip_def py_isspace_def
          py_getitem_def Let_def)
  have z: "zlib_decompress sample_env zlib_a = Inr [97]" by (simp add: sample_env_def)
  have io: "file_io sample_env ''out.grb'' [97] = IoOk" by (simp add: sample_env_def)
  have ne1: "''eJxLBAAAYgBi'' \<noteq> []" by simp
  note d1 = decode_ok[OF p1 ne1 sample_b64decode z io, of new_world]
  have p2: "extract_payload ''\<newline>eJxLBAAAYgBi\<newline>0'' = Inr ''0''"
    by (simp add: extract_payload_def message_lines_def py_strip_def py_isspace_def
          py_getitem_def Let_def)
  have b2: "b64decode ''0'' = Inl (BinasciiError
       ''Invalid base64-encoded string: number of data characters (1) cannot be 1 more than a multiple of 4'')"
    by (simp add: b64decode_def a2b_base64_def BASE64_PAD_def table_a2b_base64_def Let_def
          show_nat.simps)
  have ne2: "''0'' \<noteq> []" by simp
  note d2 = decode_b64_fail[OF p2 ne2 b2, of sample_env "''out.grb''" new_world]
  have f1: "fst (decode_grib_file sample_env ''0\<newline>eJxLBAAAYgBi\<newline>0'' ''out.grb'' new_world) =
     Inr ''out.grb''"
    unfolding d1 by simp
  have g1: "files (snd (decode_grib_file sample_env ''0\<newline>eJxLBAAAYgBi\<newline>0'' ''out.grb''
      new_world)) ''out.grb'' = Some [97]"
    unfolding d1 by simp
  have f2: "fst (decode_grib_file sample_env ''\<newline>eJxLBAAAYgBi\<newline>0'' ''out.grb'' new_world) =
     Inl (BinasciiError
       ''Invalid base64-encoded string: number of data characters (1) cannot be 1 more than a multiple of 4'')"
    unfolding d2 by simp
  have g2: "files (snd (decode_grib_file sample_env ''\<newline>eJxLBAAAYgBi\<newline>0'' ''out.grb''
      new_world)) ''out.grb'' = None"
    unfolding d2 by (simp add: new_world_def)
  from l1 l2 f1 g1 f2 g2 show ?thesis by (intro conjI)
qed

text \<open>
  Claim C8, amended. The outcome depends only on the lines at payload positions of the
  trimmed text, the text after \<^verbatim>\<open>strip()\<close>: two texts whose trimmed line lists have the
  same payload positions (the same indices congruent to 1 modulo 3 are in range) and
  agree on every line there give the same result, the same files and the same output,
  whatever their marker lines hold and however many marker lines follow the last payload
  line. Marker content is never validated.
\<close>

theorem marker_lines_ignored:
  assumes "\<forall>i. i mod 3 = 1 \<longrightarrow>
             (i < length (message_lines t1) \<longleftrightarrow> i < length (message_lines t2))"
    and "\<forall>i < length (message_lines t1).
           i mod 3 = 1 \<longrightarrow> message_lines t1 ! i = message_lines t2 ! i"
  shows "decode_grib_file E t1 output_path w = decode_grib_file E t2 output_path w"
proof -
  let ?F = "filter (\<lambda>i. i mod 3 = 1) [0..<length (message_lines t1)]"
  have F: "?F = filter (\<lambda>i. i mod 3 = 1) [0..<length (message_lines t2)]"
    by (rule payload_indices_cong[OF assms(1)])
  have m: "map ((!) (message_lines t1)) ?F = map ((!) (message_lines t2)) ?F"
    by (rule map_cong[OF refl]) (use assms(2) in auto)
  have "extract_payload t1 = Inr (concat (map ((!) (message_lines t1)) ?F))"
    by (rule extract_payload_eq)
  also have "\<dots> = Inr (concat (map ((!) (message_lines t2)) ?F))"
    by (simp only: m)
  also have "\<dots> = extract_payload t2"
    unfolding F by (rule extract_payload_eq[symmetric])
  finally show ?thesis by (rule decode_same_payload)
qed

theorem marker_lines_ignored_witness:
  "message_lines ''0\<newline>eJxLBAAAYgBi\<newline>0'' = [''0'', ''eJxLBAAAYgBi'', ''0''] \<and>
   message_lines ''part one\<newline>eJxLBAAAYgBi\<newline>'' = [''part one'', ''eJxLBAAAYgBi''] \<and>
   decode_grib_file sample_env ''0\<newline>eJxLBAAAYgBi\<newline>0'' ''out.grb'' new_world =
   decode_grib_file sample_env ''part one\<newline>eJxLBAAAYgBi\<newline>'' ''out.grb'' new_world \<and>
   fst (decode_grib_file sample_env ''part one\<newline>eJxLBAAAYgBi\<newline>'' ''out.grb'' new_world) =
     Inr ''out.grb''"
proof -
  have l1: "message_lines ''0\<newline>eJxLBAAAYgBi\<newline>0'' = [''0'', ''eJxLBAAAYgBi'', ''0'']"
    by (simp add: message_lines_def py_strip_def py_isspace_def)
  have l2: "message_lines ''part one\<newline>eJxLBAAAYgBi\<newline>'' = [''part one'', ''eJxLBAAAYgBi'']"
    by (simp add: message_lines_def py_strip_def py_isspace_def)
  have a: "\<forall>i. i mod 3 = 1 \<longrightarrow>
      (i < length (message_lines ''0\<newline>eJxLBAAAYgBi\<newline>0'') \<longleftrightarrow>
       i < length (message_lines ''part one\<newline>eJxLBAAAYgBi\<newline>''))"
  proof (intro allI impI)
    fix i :: nat assume "i mod 3 = 1"
    then have "i \<noteq> 2" by auto
    then show "i < length (message_lines ''0\<newline>eJxLBAAAYgBi\<newline>0'') \<longleftrightarrow>
       i < length (message_lines ''part one\<newline>eJxLBAAAYgBi\<newline>'')"
      unfolding l1 l2 by auto
  qed
  have b: "\<forall>i < length (message_lines ''0\<newline>eJxLBAAAYgBi\<newline>0'').
      i mod 3 = 1 \<longrightarrow>
      message_lines ''0\<newline>eJxLBAAAYgBi\<newline>0'' ! i =
      message_lines ''part one\<newline>eJxLBAAAYgBi\<newline>'' ! i"
    unfolding l1 l2 by (simp add: less_Suc_eq)
  note eq = marker_lines_ignored[OF a b, of sample_env "''out.grb''" new_world]
  have p1: "extract_payload ''0\<newline>eJxLBAAAYgBi\<newline>0'' = Inr ''eJxLBAAAYgBi''"
    by (simp add: extract_payload_def message_lines_def py_strip_def py_isspace_def
          py_getitem_def Let_def)
  have z: "zlib_decompress sample_env zlib_a = Inr [97]" by (simp add: sample_env_def)
  have io: "file_io sample_env ''out.grb'' [97] = IoOk" by (simp add: sample_env_def)
  have ne1: "''eJxLBAAAYgBi'' \<noteq> []" by simp
  have f: "fst (decode_grib_file sample_env ''part one\<newline>eJxLBAAAYgBi\<newline>'' ''out.grb'' new_world) =
     Inr ''out.grb''"
    unfolding eq[symmetric] decode_ok[OF p1 ne1 sample_b64decode z io] by simp
  from l1 l2 eq f show ?thesis by (intro conjI)
qed

end
